theory Spec2Isabelle
  imports Main "HOL-Library.Sublist"
begin

section \<open>Outbound delivery (src/infra/outbound/deliver.ts)\<close>

subsection \<open>Data model\<close>

text \<open>
  The six providers of the \<^verbatim>\<open>OutboundDeliveryResult\<close> union; the dispatcher's parameter
  type is \<^verbatim>\<open>Exclude<OutboundProvider, "none">\<close>.
\<close>

datatype Provider = Whatsapp | Telegram | Discord | Slack | Signal | IMessage

text \<open>
  \<^verbatim>\<open>ReplyPayload\<close>: three optional fields; \<open>None\<close> is \<^verbatim>\<open>undefined\<close> (or \<^verbatim>\<open>null\<close>, which
  \<^verbatim>\<open>??\<close> treats alike).
\<close>

record ReplyPayload =
  rp_text :: "string option"
  rp_mediaUrl :: "string option"
  rp_mediaUrls :: "string list option"

record NormalizedOutboundPayload =
  np_text :: string
  np_mediaUrls :: "string list"

text \<open>JavaScript truthiness of a string: every string but the empty one.\<close>

definition truthyStr :: "string \<Rightarrow> bool" where
  "truthyStr s = (s \<noteq> [])"

text \<open>
  \<^verbatim>\<open>payloads.map(p => ({text: p.text ?? "", mediaUrls: p.mediaUrls ?? (p.mediaUrl ? [p.mediaUrl] : [])}))\<close>
  \<^verbatim>\<open>.filter(p => p.text || p.mediaUrls.length > 0)\<close>
\<close>

definition normalizeOne :: "ReplyPayload \<Rightarrow> NormalizedOutboundPayload" where
  "normalizeOne payload =
     \<lparr> np_text = (case rp_text payload of None \<Rightarrow> [] | Some t \<Rightarrow> t),
       np_mediaUrls =
         (case rp_mediaUrls payload of
            Some us \<Rightarrow> us
          | None \<Rightarrow>
              (case rp_mediaUrl payload of
                 None \<Rightarrow> []
               | Some u \<Rightarrow> if truthyStr u then [u] else [])) \<rparr>"

definition keepPayload :: "NormalizedOutboundPayload \<Rightarrow> bool" where
  "keepPayload payload = (truthyStr (np_text payload) \<or> length (np_mediaUrls payload) > 0)"

definition normalizeOutboundPayloads :: "ReplyPayload list \<Rightarrow> NormalizedOutboundPayload list" where
  "normalizeOutboundPayloads payloads = filter keepPayload (map normalizeOne payloads)"

subsection \<open>Strings: \<^verbatim>\<open>String.prototype.trim\<close>\<close>

text \<open>
  Strings are lists of 8-bit characters. Of the characters \<^verbatim>\<open>trim\<close> strips (white space
  and line terminators), those below 256 are TAB, LF, VT, FF, CR, SPACE and NBSP.
\<close>

definition isTrimChar :: "char \<Rightarrow> bool" where
  "isTrimChar c = (c \<in> set [CHR 0x09, CHR 0x0A, CHR 0x0B, CHR 0x0C, CHR 0x0D, CHR 0x20, CHR 0xA0])"

definition trim :: "string \<Rightarrow> string" where
  "trim s = rev (dropWhile isTrimChar (rev (dropWhile isTrimChar s)))"

subsection \<open>Per-provider resolution\<close>

text \<open>
  \<^verbatim>\<open>type Chunker = (text, limit) => string[]\<close>. The two chunkers live in
  \<^verbatim>\<open>auto-reply/chunk.js\<close>; \<open>resolveChunker\<close> returns one of them by name, or \<^verbatim>\<open>null\<close>.
\<close>

datatype Chunker = ChunkMarkdownText | ChunkText

definition resolveChunker :: "Provider \<Rightarrow> Chunker option" where
  "resolveChunker provider =
     (if provider = Telegram then Some ChunkMarkdownText
      else if provider = Whatsapp then Some ChunkText
      else if provider = Signal then Some ChunkText
      else if provider = IMessage then Some ChunkText
      else None)"

definition MB :: int where
  "MB = 1024 * 1024"

text \<open>
  The parts of \<^verbatim>\<open>ClawdbotConfig\<close> that the two source files read themselves. The record is
  extensible: what the imported helpers read (chunk limits, the Telegram token) sits in
  the extension. Megabyte values are integers; \<open>None\<close> is an absent section or field.
\<close>

record MediaSection =
  mediaMaxMb :: "int option"

record GatewayRemote =
  remote_url :: "string option"
  remote_token :: "string option"
  remote_password :: "string option"

record GatewayAuth =
  auth_token :: "string option"
  auth_password :: "string option"

record GatewayConfig =
  gw_mode :: "string option"
  gw_remote :: "GatewayRemote option"
  gw_auth :: "GatewayAuth option"
  gw_bind :: "string option"

record ClawdbotConfig =
  cfg_signal :: "MediaSection option"
  cfg_imessage :: "MediaSection option"
  cfg_agent :: "MediaSection option"
  cfg_gateway :: "GatewayConfig option"

text \<open>\<^verbatim>\<open>cfg.section?.mediaMaxMb\<close>\<close>

definition sectionMediaMaxMb :: "MediaSection option \<Rightarrow> int option" where
  "sectionMediaMaxMb sec = (case sec of None \<Rightarrow> None | Some s \<Rightarrow> mediaMaxMb s)"

text \<open>JavaScript truthiness of an optional number: present and not zero.\<close>

definition truthyNum :: "int option \<Rightarrow> bool" where
  "truthyNum v = (case v of None \<Rightarrow> False | Some n \<Rightarrow> n \<noteq> 0)"

definition timesMB :: "int option \<Rightarrow> int option" where
  "timesMB v = (case v of None \<Rightarrow> None | Some n \<Rightarrow> Some (n * MB))"

definition resolveSignalMaxBytes :: "'c ClawdbotConfig_scheme \<Rightarrow> int option" where
  "resolveSignalMaxBytes cfg =
     (if truthyNum (sectionMediaMaxMb (cfg_signal cfg)) then timesMB (sectionMediaMaxMb (cfg_signal cfg))
      else if truthyNum (sectionMediaMaxMb (cfg_agent cfg)) then timesMB (sectionMediaMaxMb (cfg_agent cfg))
      else None)"

definition resolveIMessageMaxBytes :: "'c ClawdbotConfig_scheme \<Rightarrow> int option" where
  "resolveIMessageMaxBytes cfg =
     (if truthyNum (sectionMediaMaxMb (cfg_imessage cfg)) then timesMB (sectionMediaMaxMb (cfg_imessage cfg))
      else if truthyNum (sectionMediaMaxMb (cfg_agent cfg)) then timesMB (sectionMediaMaxMb (cfg_agent cfg))
      else None)"

subsection \<open>Send functions, results and the observable trace\<close>

text \<open>
  The options object of a send call; a field that a call site does not write is \<open>None\<close>.
  Slack's text send passes no options object at all.
\<close>

record SendOpts =
  o_verbose :: "bool option"
  o_mediaUrl :: "string option"
  o_token :: "string option"
  o_maxBytes :: "int option"

record SendCall =
  c_provider :: Provider
  c_to :: string
  c_text :: string
  c_opts :: "SendOpts option"

text \<open>
  A send function is asynchronous and may reject: it maps the outside world \<open>'w\<close> to a new
  world and either an error \<open>'e\<close> or the provider's identifiers \<open>'r\<close>.
\<close>

type_synonym ('w, 'e, 'r) sendfn =
  "string \<Rightarrow> string \<Rightarrow> SendOpts option \<Rightarrow> 'w \<Rightarrow> ('e + 'r) \<times> 'w"

record ('w, 'e, 'r) OutboundSendDeps =
  sendWhatsApp :: "('w, 'e, 'r) sendfn"
  sendTelegram :: "('w, 'e, 'r) sendfn"
  sendDiscord :: "('w, 'e, 'r) sendfn"
  sendSlack :: "('w, 'e, 'r) sendfn"
  sendSignal :: "('w, 'e, 'r) sendfn"
  sendIMessage :: "('w, 'e, 'r) sendfn"

text \<open>\<^verbatim>\<open>{ provider: "...", ...res }\<close>\<close>

record 'r OutboundDeliveryResult =
  dr_provider :: Provider
  dr_res :: 'r

text \<open>
  What a call does, in order: the entry of a payload's \<^verbatim>\<open>try\<close> block, each call of a
  chunker with its arguments and its outcome, each send call with its outcome, each
  \<^verbatim>\<open>onError\<close> invocation, and each exception thrown by one of the two callbacks.
\<close>

datatype Thrower = ByOnPayload | ByOnError

datatype ('e, 'r) Event =
  EvPayload NormalizedOutboundPayload
| EvChunk Chunker string nat "'e + string list"
| EvSend SendCall "'e + 'r"
| EvOnError 'e NormalizedOutboundPayload
| EvThrew Thrower 'e

record ('w, 'r) DState =
  world :: 'w
  results :: "'r OutboundDeliveryResult list"

type_synonym ('w, 'e, 'r) outcome =
  "'e option \<times> ('w, 'r) DState \<times> ('e, 'r) Event list"

text \<open>
  The imports of deliver.ts that are not part of the source files at hand, taken as
  parameters: the two chunkers, \<^verbatim>\<open>resolveTextChunkLimit\<close> and the \<^verbatim>\<open>token\<close> field of
  \<^verbatim>\<open>resolveTelegramToken(cfg)\<close>. A chunker is called inside the \<^verbatim>\<open>try\<close> block and may throw
  (\<open>Inl\<close>) instead of returning its chunks.
\<close>

record ('c, 'e) Imports =
  chunkMarkdownText :: "string \<Rightarrow> nat \<Rightarrow> 'e + string list"
  chunkText :: "string \<Rightarrow> nat \<Rightarrow> 'e + string list"
  resolveTextChunkLimit :: "'c ClawdbotConfig_scheme \<Rightarrow> Provider \<Rightarrow> nat"
  resolveTelegramToken :: "'c ClawdbotConfig_scheme \<Rightarrow> string"

text \<open>
  The parameters of \<^verbatim>\<open>deliverOutboundPayloads\<close>. The two callbacks act on the outside
  world and either return (\<open>None\<close>) or throw (\<open>Some err\<close>).
\<close>

record ('c, 'w, 'e, 'r) DeliverParams =
  p_cfg :: "'c ClawdbotConfig_scheme"
  p_provider :: Provider
  p_to :: string
  p_payloads :: "ReplyPayload list"
  p_deps :: "('w, 'e, 'r) OutboundSendDeps"
  p_bestEffort :: "bool option"
  p_onError :: "('e \<Rightarrow> NormalizedOutboundPayload \<Rightarrow> 'w \<Rightarrow> 'e option \<times> 'w) option"
  p_onPayload :: "(NormalizedOutboundPayload \<Rightarrow> 'w \<Rightarrow> 'e option \<times> 'w) option"

text \<open>
  What the closures \<^verbatim>\<open>sendTextChunks\<close>, \<^verbatim>\<open>sendText\<close>, \<^verbatim>\<open>sendMedia\<close> and the loop capture:
  the values computed once per call (lines 95 to 104) and the parameters.
\<close>

record ('w, 'e, 'r) Ctx =
  cx_provider :: Provider
  cx_to :: string
  cx_deps :: "('w, 'e, 'r) OutboundSendDeps"
  cx_chunker :: "Chunker option"
  cx_textLimit :: "nat option"
  cx_telegramToken :: "string option"
  cx_signalMaxBytes :: "int option"
  cx_imessageMaxBytes :: "int option"
  cx_chunkMarkdownText :: "string \<Rightarrow> nat \<Rightarrow> 'e + string list"
  cx_chunkText :: "string \<Rightarrow> nat \<Rightarrow> 'e + string list"
  cx_bestEffort :: "bool option"
  cx_onError :: "('e \<Rightarrow> NormalizedOutboundPayload \<Rightarrow> 'w \<Rightarrow> 'e option \<times> 'w) option"
  cx_onPayload :: "(NormalizedOutboundPayload \<Rightarrow> 'w \<Rightarrow> 'e option \<times> 'w) option"

definition mkCtx :: "('c, 'e) Imports \<Rightarrow> ('c, 'w, 'e, 'r) DeliverParams \<Rightarrow> ('w, 'e, 'r) Ctx" where
  "mkCtx lib params =
     (let cfg = p_cfg params;
          provider = p_provider params;
          chunker = resolveChunker provider;
          textLimit = (case chunker of
                         Some _ \<Rightarrow> Some (resolveTextChunkLimit lib cfg provider)
                       | None \<Rightarrow> None);
          telegramToken = (if provider = Telegram
                           then (if truthyStr (resolveTelegramToken lib cfg)
                                 then Some (resolveTelegramToken lib cfg) else None)
                           else None);
          signalMaxBytes = (if provider = Signal then resolveSignalMaxBytes cfg else None);
          imessageMaxBytes = (if provider = IMessage then resolveIMessageMaxBytes cfg else None)
      in \<lparr> cx_provider = provider, cx_to = p_to params, cx_deps = p_deps params,
           cx_chunker = chunker, cx_textLimit = textLimit, cx_telegramToken = telegramToken,
           cx_signalMaxBytes = signalMaxBytes, cx_imessageMaxBytes = imessageMaxBytes,
           cx_chunkMarkdownText = chunkMarkdownText lib, cx_chunkText = chunkText lib,
           cx_bestEffort = p_bestEffort params, cx_onError = p_onError params,
           cx_onPayload = p_onPayload params \<rparr>)"

subsection \<open>Sending\<close>

text \<open>
  \<^verbatim>\<open>const res = await deps.sendX(to, text, opts); results.push({ provider, ...res });\<close>
  A rejected send throws before the push.
\<close>

definition invokeSend ::
  "Provider \<Rightarrow> ('w, 'e, 'r) sendfn \<Rightarrow> string \<Rightarrow> string \<Rightarrow> SendOpts option \<Rightarrow> ('w, 'r) DState
     \<Rightarrow> ('w, 'e, 'r) outcome" where
  "invokeSend prov f to txt opts st =
     (let call = \<lparr> c_provider = prov, c_to = to, c_text = txt, c_opts = opts \<rparr>
      in case f to txt opts (world st) of
           (Inl err, w') \<Rightarrow> (Some err, st\<lparr>world := w'\<rparr>, [EvSend call (Inl err)])
         | (Inr res, w') \<Rightarrow>
             (None,
              st\<lparr>world := w', results := results st @ [\<lparr> dr_provider = prov, dr_res = res \<rparr>]\<rparr>,
              [EvSend call (Inr res)]))"

definition sendText :: "('w, 'e, 'r) Ctx \<Rightarrow> string \<Rightarrow> ('w, 'r) DState \<Rightarrow> ('w, 'e, 'r) outcome" where
  "sendText C txt st =
     (if cx_provider C = Whatsapp then
        invokeSend Whatsapp (sendWhatsApp (cx_deps C)) (cx_to C) txt
          (Some \<lparr> o_verbose = Some False, o_mediaUrl = None, o_token = None, o_maxBytes = None \<rparr>) st
      else if cx_provider C = Telegram then
        invokeSend Telegram (sendTelegram (cx_deps C)) (cx_to C) txt
          (Some \<lparr> o_verbose = Some False, o_mediaUrl = None, o_token = cx_telegramToken C,
                  o_maxBytes = None \<rparr>) st
      else if cx_provider C = Signal then
        invokeSend Signal (sendSignal (cx_deps C)) (cx_to C) txt
          (Some \<lparr> o_verbose = None, o_mediaUrl = None, o_token = None,
                  o_maxBytes = cx_signalMaxBytes C \<rparr>) st
      else if cx_provider C = IMessage then
        invokeSend IMessage (sendIMessage (cx_deps C)) (cx_to C) txt
          (Some \<lparr> o_verbose = None, o_mediaUrl = None, o_token = None,
                  o_maxBytes = cx_imessageMaxBytes C \<rparr>) st
      else if cx_provider C = Slack then
        invokeSend Slack (sendSlack (cx_deps C)) (cx_to C) txt None st
      else
        invokeSend Discord (sendDiscord (cx_deps C)) (cx_to C) txt
          (Some \<lparr> o_verbose = Some False, o_mediaUrl = None, o_token = None, o_maxBytes = None \<rparr>) st)"

definition sendMedia ::
  "('w, 'e, 'r) Ctx \<Rightarrow> string \<Rightarrow> string \<Rightarrow> ('w, 'r) DState \<Rightarrow> ('w, 'e, 'r) outcome" where
  "sendMedia C caption url st =
     (if cx_provider C = Whatsapp then
        invokeSend Whatsapp (sendWhatsApp (cx_deps C)) (cx_to C) caption
          (Some \<lparr> o_verbose = Some False, o_mediaUrl = Some url, o_token = None, o_maxBytes = None \<rparr>) st
      else if cx_provider C = Telegram then
        invokeSend Telegram (sendTelegram (cx_deps C)) (cx_to C) caption
          (Some \<lparr> o_verbose = Some False, o_mediaUrl = Some url, o_token = cx_telegramToken C,
                  o_maxBytes = None \<rparr>) st
      else if cx_provider C = Signal then
        invokeSend Signal (sendSignal (cx_deps C)) (cx_to C) caption
          (Some \<lparr> o_verbose = None, o_mediaUrl = Some url, o_token = None,
                  o_maxBytes = cx_signalMaxBytes C \<rparr>) st
      else if cx_provider C = IMessage then
        invokeSend IMessage (sendIMessage (cx_deps C)) (cx_to C) caption
          (Some \<lparr> o_verbose = None, o_mediaUrl = Some url, o_token = None,
                  o_maxBytes = cx_imessageMaxBytes C \<rparr>) st
      else if cx_provider C = Slack then
        invokeSend Slack (sendSlack (cx_deps C)) (cx_to C) caption
          (Some \<lparr> o_verbose = None, o_mediaUrl = Some url, o_token = None, o_maxBytes = None \<rparr>) st
      else
        invokeSend Discord (sendDiscord (cx_deps C)) (cx_to C) caption
          (Some \<lparr> o_verbose = Some False, o_mediaUrl = Some url, o_token = None, o_maxBytes = None \<rparr>) st)"

definition applyChunker :: "('w, 'e, 'r) Ctx \<Rightarrow> Chunker \<Rightarrow> string \<Rightarrow> nat \<Rightarrow> 'e + string list" where
  "applyChunker C k txt limit =
     (case k of
        ChunkMarkdownText \<Rightarrow> cx_chunkMarkdownText C txt limit
      | ChunkText \<Rightarrow> cx_chunkText C txt limit)"

text \<open>\<^verbatim>\<open>for (const chunk of chunks) await sendText(chunk);\<close> A throw leaves the loop.\<close>

fun sendChunks ::
  "('w, 'e, 'r) Ctx \<Rightarrow> string list \<Rightarrow> ('w, 'r) DState \<Rightarrow> ('w, 'e, 'r) outcome" where
  "sendChunks C [] st = (None, st, [])"
| "sendChunks C (chunk # rest) st =
     (case sendText C chunk st of
        (Some err, st', evs) \<Rightarrow> (Some err, st', evs)
      | (None, st', evs) \<Rightarrow>
          (case sendChunks C rest st' of (r, st'', evs') \<Rightarrow> (r, st'', evs @ evs')))"

text \<open>
  \<^verbatim>\<open>for (const chunk of chunker(text, textLimit)) await sendText(chunk);\<close> with the outcome
  \<open>out\<close> of the chunker call: an exception of the chunker leaves \<open>sendTextChunks\<close> before
  any send.
\<close>

definition sendChunked ::
  "('w, 'e, 'r) Ctx \<Rightarrow> Chunker \<Rightarrow> string \<Rightarrow> nat \<Rightarrow> 'e + string list \<Rightarrow> ('w, 'r) DState
     \<Rightarrow> ('w, 'e, 'r) outcome" where
  "sendChunked C k txt limit out st =
     (case out of
        Inl err \<Rightarrow> (Some err, st, [EvChunk k txt limit (Inl err)])
      | Inr chunks \<Rightarrow>
          (case sendChunks C chunks st of
             (r, st', evs) \<Rightarrow> (r, st', EvChunk k txt limit (Inr chunks) # evs)))"

definition sendTextChunks ::
  "('w, 'e, 'r) Ctx \<Rightarrow> string \<Rightarrow> ('w, 'r) DState \<Rightarrow> ('w, 'e, 'r) outcome" where
  "sendTextChunks C txt st =
     (case cx_chunker C of
        None \<Rightarrow> sendText C txt st
      | Some k \<Rightarrow>
          (case cx_textLimit C of
             None \<Rightarrow> sendText C txt st
           | Some limit \<Rightarrow> sendChunked C k txt limit (applyChunker C k txt limit) st))"

text \<open>
  \<^verbatim>\<open>let first = true; for (const url of payload.mediaUrls) {\<close>
  \<^verbatim>\<open>  const caption = first ? payload.text : ""; first = false; await sendMedia(caption, url); }\<close>
\<close>

fun sendMediaLoop ::
  "('w, 'e, 'r) Ctx \<Rightarrow> string \<Rightarrow> bool \<Rightarrow> string list \<Rightarrow> ('w, 'r) DState \<Rightarrow> ('w, 'e, 'r) outcome" where
  "sendMediaLoop C txt first [] st = (None, st, [])"
| "sendMediaLoop C txt first (url # rest) st =
     (let caption = (if first then txt else [])
      in case sendMedia C caption url st of
           (Some err, st', evs) \<Rightarrow> (Some err, st', evs)
         | (None, st', evs) \<Rightarrow>
             (case sendMediaLoop C txt False rest st' of (r, st'', evs') \<Rightarrow> (r, st'', evs @ evs')))"

text \<open>
  The body of the \<^verbatim>\<open>try\<close> block for one payload (lines 200 to 211):
  \<^verbatim>\<open>params.onPayload?.(payload)\<close>, which may throw, then the text or the media sends.
\<close>

definition callOnPayload ::
  "('w, 'e, 'r) Ctx \<Rightarrow> NormalizedOutboundPayload \<Rightarrow> 'w \<Rightarrow> 'e option \<times> 'w" where
  "callOnPayload C payload w =
     (case cx_onPayload C of None \<Rightarrow> (None, w) | Some f \<Rightarrow> f payload w)"

definition tryPayload ::
  "('w, 'e, 'r) Ctx \<Rightarrow> NormalizedOutboundPayload \<Rightarrow> ('w, 'r) DState \<Rightarrow> ('w, 'e, 'r) outcome" where
  "tryPayload C payload st =
     (case callOnPayload C payload (world st) of
        (Some err, w1) \<Rightarrow>
          (Some err, st\<lparr>world := w1\<rparr>, [EvPayload payload, EvThrew ByOnPayload err])
      | (None, w1) \<Rightarrow>
          (case (if length (np_mediaUrls payload) = 0
                 then sendTextChunks C (np_text payload) (st\<lparr>world := w1\<rparr>)
                 else sendMediaLoop C (np_text payload) True (np_mediaUrls payload)
                        (st\<lparr>world := w1\<rparr>)) of
             (r, st2, evs) \<Rightarrow> (r, st2, EvPayload payload # evs)))"

text \<open>
  The \<^verbatim>\<open>catch\<close> block: \<^verbatim>\<open>if (!params.bestEffort) throw err; params.onError?.(err, payload);\<close>
  The error that leaves the block, if any: the caught one outside best-effort mode, the
  one that \<^verbatim>\<open>onError\<close> itself throws otherwise.
\<close>

definition isBestEffort :: "('w, 'e, 'r) Ctx \<Rightarrow> bool" where
  "isBestEffort C = (cx_bestEffort C = Some True)"

definition catchPayload ::
  "('w, 'e, 'r) Ctx \<Rightarrow> 'e \<Rightarrow> NormalizedOutboundPayload \<Rightarrow> ('w, 'r) DState \<Rightarrow> ('w, 'e, 'r) outcome" where
  "catchPayload C err payload st =
     (if \<not> isBestEffort C then (Some err, st, [])
      else (case cx_onError C of
              None \<Rightarrow> (None, st, [])
            | Some f \<Rightarrow>
                (case f err payload (world st) of
                   (None, w1) \<Rightarrow> (None, st\<lparr>world := w1\<rparr>, [EvOnError err payload])
                 | (Some err2, w1) \<Rightarrow>
                     (Some err2, st\<lparr>world := w1\<rparr>,
                      [EvOnError err payload, EvThrew ByOnError err2]))))"

text \<open>
  One iteration of the loop over the normalized payloads: the \<^verbatim>\<open>try\<close> statement with its
  \<^verbatim>\<open>catch\<close>. \<open>Some err\<close> is an exception that leaves the iteration, and with it the function.
\<close>

definition loopBody ::
  "('w, 'e, 'r) Ctx \<Rightarrow> NormalizedOutboundPayload \<Rightarrow> ('w, 'r) DState \<Rightarrow> ('w, 'e, 'r) outcome" where
  "loopBody C payload st =
     (case tryPayload C payload st of
        (None, st1, evs) \<Rightarrow> (None, st1, evs)
      | (Some err, st1, evs) \<Rightarrow>
          (case catchPayload C err payload st1 of
             (r, st2, evs1) \<Rightarrow> (r, st2, evs @ evs1)))"

fun deliverLoop ::
  "('w, 'e, 'r) Ctx \<Rightarrow> NormalizedOutboundPayload list \<Rightarrow> ('w, 'r) DState \<Rightarrow> ('w, 'e, 'r) outcome" where
  "deliverLoop C [] st = (None, st, [])"
| "deliverLoop C (payload # rest) st =
     (case loopBody C payload st of
        (Some err, st1, evs) \<Rightarrow> (Some err, st1, evs)
      | (None, st1, evs) \<Rightarrow>
          (case deliverLoop C rest st1 of (r, st2, evs') \<Rightarrow> (r, st2, evs @ evs')))"

text \<open>
  The whole call: \<open>Inl err\<close> is a rejected promise, \<open>Inr results\<close> the returned list; with
  them the final outside world and the trace.
\<close>

definition deliverOutboundPayloads ::
  "('c, 'e) Imports \<Rightarrow> ('c, 'w, 'e, 'r) DeliverParams \<Rightarrow> 'w
     \<Rightarrow> ('e + 'r OutboundDeliveryResult list) \<times> 'w \<times> ('e, 'r) Event list" where
  "deliverOutboundPayloads lib params w =
     (case deliverLoop (mkCtx lib params) (normalizeOutboundPayloads (p_payloads params))
             \<lparr> world = w, results = [] \<rparr> of
        (Some err, st, evs) \<Rightarrow> (Inl err, world st, evs)
      | (None, st, evs) \<Rightarrow> (Inr (results st), world st, evs))"

subsection \<open>Reading the trace\<close>

text \<open>
  Projections of a trace: the results of the sends that succeeded, the send calls issued,
  the errors of the sends that failed, the \<^verbatim>\<open>onError\<close> invocations and the payloads
  whose \<^verbatim>\<open>try\<close> block was entered, each in the order of the trace.
\<close>

fun okResults :: "('e, 'r) Event list \<Rightarrow> 'r OutboundDeliveryResult list" where
  "okResults [] = []"
| "okResults (EvSend c (Inr res) # evs) = \<lparr> dr_provider = c_provider c, dr_res = res \<rparr> # okResults evs"
| "okResults (_ # evs) = okResults evs"

fun sendCalls :: "('e, 'r) Event list \<Rightarrow> SendCall list" where
  "sendCalls [] = []"
| "sendCalls (EvSend c out # evs) = c # sendCalls evs"
| "sendCalls (_ # evs) = sendCalls evs"

fun failedSends :: "('e, 'r) Event list \<Rightarrow> 'e list" where
  "failedSends [] = []"
| "failedSends (EvSend c (Inl err) # evs) = err # failedSends evs"
| "failedSends (_ # evs) = failedSends evs"

fun onErrorCalls :: "('e, 'r) Event list \<Rightarrow> ('e \<times> NormalizedOutboundPayload) list" where
  "onErrorCalls [] = []"
| "onErrorCalls (EvOnError err p # evs) = (err, p) # onErrorCalls evs"
| "onErrorCalls (_ # evs) = onErrorCalls evs"

fun payloadsOf :: "('e, 'r) Event list \<Rightarrow> NormalizedOutboundPayload list" where
  "payloadsOf [] = []"
| "payloadsOf (EvPayload p # evs) = p # payloadsOf evs"
| "payloadsOf (_ # evs) = payloadsOf evs"

text \<open>The error, if any, of the outcome of a send.\<close>

definition errOf :: "'e + 'r \<Rightarrow> 'e option" where
  "errOf out = (case out of Inl err \<Rightarrow> Some err | Inr _ \<Rightarrow> None)"

definition callMediaUrl :: "SendCall \<Rightarrow> string option" where
  "callMediaUrl c = (case c_opts c of None \<Rightarrow> None | Some opts \<Rightarrow> o_mediaUrl opts)"

definition callMaxBytes :: "SendCall \<Rightarrow> int option" where
  "callMaxBytes c = (case c_opts c of None \<Rightarrow> None | Some opts \<Rightarrow> o_maxBytes opts)"

text \<open>The byte ceiling a call's provider has: two providers have one, the others none.\<close>

definition ctxMaxBytes :: "('w, 'e, 'r) Ctx \<Rightarrow> int option" where
  "ctxMaxBytes C =
     (if cx_provider C = Signal then cx_signalMaxBytes C
      else if cx_provider C = IMessage then cx_imessageMaxBytes C
      else None)"

fun chunkCalls :: "('e, 'r) Event list \<Rightarrow> (Chunker \<times> string \<times> nat) list" where
  "chunkCalls [] = []"
| "chunkCalls (EvChunk k body limit out # evs) = (k, body, limit) # chunkCalls evs"
| "chunkCalls (_ # evs) = chunkCalls evs"

text \<open>
  The error with which a payload's \<^verbatim>\<open>try\<close> block fails, read off the events of that payload:
  the error of the first send that rejects, of a chunker that throws or of an \<^verbatim>\<open>onPayload\<close>
  that throws; \<open>None\<close> when the block completes.
\<close>

fun tryFailure :: "('e, 'r) Event list \<Rightarrow> 'e option" where
  "tryFailure [] = None"
| "tryFailure (EvSend c (Inl err) # evs) = Some err"
| "tryFailure (EvChunk k body limit (Inl err) # evs) = Some err"
| "tryFailure (EvThrew ByOnPayload err # evs) = Some err"
| "tryFailure (_ # evs) = tryFailure evs"

text \<open>
  The trace cut at the entries of the \<^verbatim>\<open>try\<close> block: \<open>splitBlocks\<close> gives the events before
  the first entry and then, for each entry, the payload with the events up to the next
  entry. \<open>blocksOf\<close> gives the payloads that the dispatcher got to, in order, each with what
  it did for that payload.
\<close>

fun splitBlocks ::
  "('e, 'r) Event list \<Rightarrow> ('e, 'r) Event list \<times> (NormalizedOutboundPayload \<times> ('e, 'r) Event list) list" where
  "splitBlocks [] = ([], [])"
| "splitBlocks (EvPayload p # evs) = (case splitBlocks evs of (pre, bs) \<Rightarrow> ([], (p, pre) # bs))"
| "splitBlocks (ev # evs) = (case splitBlocks evs of (pre, bs) \<Rightarrow> (ev # pre, bs))"

definition blocksOf ::
  "('e, 'r) Event list \<Rightarrow> (NormalizedOutboundPayload \<times> ('e, 'r) Event list) list" where
  "blocksOf evs = snd (splitBlocks evs)"

text \<open>
  \<open>tryRun r\<close> recognises the events of one \<^verbatim>\<open>try\<close> block after its entry: chunker calls and
  sends that succeed, ended, when the block fails with \<open>r = Some err\<close>, by the send, the
  chunker call or the \<^verbatim>\<open>onPayload\<close> exception that fails with \<open>err\<close>.
\<close>

fun tryRun :: "'e option \<Rightarrow> ('e, 'r) Event list \<Rightarrow> bool" where
  "tryRun r [] = (r = None)"
| "tryRun r (EvSend c (Inr res) # evs) = tryRun r evs"
| "tryRun r (EvChunk k body limit (Inr chunks) # evs) = tryRun r evs"
| "tryRun r (EvSend c (Inl err) # evs) = (evs = [] \<and> r = Some err)"
| "tryRun r (EvChunk k body limit (Inl err) # evs) = (evs = [] \<and> r = Some err)"
| "tryRun r (EvThrew ByOnPayload err # evs) = (evs = [] \<and> r = Some err)"
| "tryRun r (_ # evs) = False"

text \<open>
  \<open>strictRun r\<close> recognises the traces without any \<^verbatim>\<open>onError\<close> invocation in which a
  failure (a send that rejects, a chunker or an \<^verbatim>\<open>onPayload\<close> that throws), if there is
  one, is the last event; \<open>r\<close> is its error.
\<close>

fun strictRun :: "'e option \<Rightarrow> ('e, 'r) Event list \<Rightarrow> bool" where
  "strictRun r [] = (r = None)"
| "strictRun r (EvPayload p # evs) = strictRun r evs"
| "strictRun r (EvSend c (Inr res) # evs) = strictRun r evs"
| "strictRun r (EvChunk k body limit (Inr chunks) # evs) = strictRun r evs"
| "strictRun r (EvSend c (Inl err) # evs) = (evs = [] \<and> r = Some err)"
| "strictRun r (EvChunk k body limit (Inl err) # evs) = (evs = [] \<and> r = Some err)"
| "strictRun r (EvThrew ByOnPayload err # evs) = (evs = [] \<and> r = Some err)"
| "strictRun r (_ # evs) = False"

subsection \<open>Test doubles\<close>

text \<open>
  In the manner of the mocks of deliver.test.ts: the outside world counts the send calls,
  a send resolves with the count as its message id, and it rejects when its text or its
  media URL is \<open>''bad''\<close>. The \<^verbatim>\<open>onPayload\<close> callback throws on the text \<open>''veto''\<close>, the
  \<^verbatim>\<open>onError\<close> callback returns.
\<close>

definition mockSend :: "(nat, string, nat) sendfn" where
  "mockSend to body opts w =
     (if body = ''bad'' \<or> (case opts of None \<Rightarrow> False | Some opt \<Rightarrow> o_mediaUrl opt = Some ''bad'')
      then (Inl ''rejected'', Suc w)
      else (Inr w, Suc w))"

definition mockDeps :: "(nat, string, nat) OutboundSendDeps" where
  "mockDeps = \<lparr> sendWhatsApp = mockSend, sendTelegram = mockSend, sendDiscord = mockSend,
                sendSlack = mockSend, sendSignal = mockSend, sendIMessage = mockSend \<rparr>"

definition mockChunk :: "string \<Rightarrow> nat \<Rightarrow> string + string list" where
  "mockChunk body limit =
     Inr (if length body \<le> limit then [body] else [take limit body, drop limit body])"

definition mockLib :: "(unit, string) Imports" where
  "mockLib = \<lparr> chunkMarkdownText = mockChunk, chunkText = mockChunk,
               resolveTextChunkLimit = (\<lambda>cfg provider. 4),
               resolveTelegramToken = (\<lambda>cfg. ''tok-1'') \<rparr>"

definition mockCfg :: "int option \<Rightarrow> int option \<Rightarrow> int option \<Rightarrow> ClawdbotConfig" where
  "mockCfg signalMb imessageMb agentMb =
     \<lparr> cfg_signal = Some \<lparr> mediaMaxMb = signalMb \<rparr>,
       cfg_imessage = Some \<lparr> mediaMaxMb = imessageMb \<rparr>,
       cfg_agent = Some \<lparr> mediaMaxMb = agentMb \<rparr>,
       cfg_gateway = None \<rparr>"

definition mockParams ::
  "ClawdbotConfig \<Rightarrow> Provider \<Rightarrow> ReplyPayload list \<Rightarrow> bool option
     \<Rightarrow> (unit, nat, string, nat) DeliverParams" where
  "mockParams cfg provider payloads bestEffort =
     \<lparr> p_cfg = cfg, p_provider = provider, p_to = ''+1555'', p_payloads = payloads,
       p_deps = mockDeps, p_bestEffort = bestEffort,
       p_onError = Some (\<lambda>err payload w. (None, w)),
       p_onPayload = Some (\<lambda>payload w. (if np_text payload = ''veto'' then Some ''vetoed'' else None, w)) \<rparr>"

definition textPayload :: "string \<Rightarrow> ReplyPayload" where
  "textPayload body = \<lparr> rp_text = Some body, rp_mediaUrl = None, rp_mediaUrls = None \<rparr>"

definition mediaPayload :: "string \<Rightarrow> string list \<Rightarrow> ReplyPayload" where
  "mediaPayload body urls = \<lparr> rp_text = Some body, rp_mediaUrl = None, rp_mediaUrls = Some urls \<rparr>"

definition mockCtx :: "Provider \<Rightarrow> (nat, string, nat) Ctx" where
  "mockCtx provider = mkCtx mockLib (mockParams (mockCfg None None None) provider [] None)"

definition mockStart :: "(nat, nat) DState" where
  "mockStart = \<lparr> world = 0, results = [] \<rparr>"

text \<open>
  The captions of the media sends of one payload, by the rule of the media loop: the text
  on the first, the empty string on the others.
\<close>

definition mediaCaptions :: "string \<Rightarrow> nat \<Rightarrow> string list" where
  "mediaCaptions body n = (case n of 0 \<Rightarrow> [] | Suc k \<Rightarrow> body # replicate k [])"

subsection \<open>The byte ceiling, in closed form\<close>

text \<open>
  Two readings of "the configured megabyte value times 1,048,576, else the agent-wide
  one": \<open>ceilingIfPresent\<close> follows the specification's words (a value counts when it is
  present), \<open>ceilingIfNonZero\<close> counts a value when it is present and not zero.
\<close>

definition ceilingIfPresent :: "int option \<Rightarrow> int option \<Rightarrow> int option" where
  "ceilingIfPresent providerMb agentMb =
     (case providerMb of
        Some n \<Rightarrow> Some (n * 1048576)
      | None \<Rightarrow> (case agentMb of Some m \<Rightarrow> Some (m * 1048576) | None \<Rightarrow> None))"

definition nonZero :: "int option \<Rightarrow> int option" where
  "nonZero v = (case v of None \<Rightarrow> None | Some n \<Rightarrow> if n = 0 then None else Some n)"

definition ceilingIfNonZero :: "int option \<Rightarrow> int option \<Rightarrow> int option" where
  "ceilingIfNonZero providerMb agentMb =
     (case nonZero providerMb of
        Some n \<Rightarrow> Some (n * 1048576)
      | None \<Rightarrow> (case nonZero agentMb of Some m \<Rightarrow> Some (m * 1048576) | None \<Rightarrow> None))"

section \<open>The gateway call (callGateway)\<close>

subsection \<open>Target resolution\<close>

text \<open>
  The fields of \<^verbatim>\<open>CallGatewayOptions\<close> that the resolution and the settlement read. The
  other fields (method, params, client identity, protocol versions) are handed to the
  \<^verbatim>\<open>GatewayClient\<close> unchanged.
\<close>

record CallGatewayOptions =
  opt_url :: "string option"
  opt_token :: "string option"
  opt_password :: "string option"
  opt_timeoutMs :: "nat option"

text \<open>
  What the call reads from its surroundings: \<^verbatim>\<open>loadConfig()\<close>, \<^verbatim>\<open>resolveGatewayPort(config)\<close>,
  \<^verbatim>\<open>pickPrimaryTailnetIPv4()\<close> and the two environment variables.
\<close>

record 'c GatewayEnv =
  env_config :: "'c ClawdbotConfig_scheme"
  env_localPort :: nat
  env_tailnetIPv4 :: "string option"
  env_token :: "string option"
  env_password :: "string option"

text \<open>\<^verbatim>\<open>typeof v === "string" && v.trim().length > 0 ? v.trim() : undefined\<close>\<close>

definition nonBlank :: "string option \<Rightarrow> string option" where
  "nonBlank v =
     (case v of
        None \<Rightarrow> None
      | Some s \<Rightarrow> if length (trim s) > 0 then Some (trim s) else None)"

text \<open>\<^verbatim>\<open>a || b\<close> on values that are a string or \<^verbatim>\<open>undefined\<close>.\<close>

definition jsOr :: "string option \<Rightarrow> string option \<Rightarrow> string option" where
  "jsOr a b = (case a of None \<Rightarrow> b | Some s \<Rightarrow> if truthyStr s then Some s else b)"

text \<open>A non-negative integer in a template literal: its decimal digits.\<close>

function showNat :: "nat \<Rightarrow> string" where
  "showNat n = (if n < 10 then [''0123456789'' ! n] else showNat (n div 10) @ [''0123456789'' ! (n mod 10)])"
  by pat_completeness auto
termination
  by (relation "measure id") auto

declare showNat.simps [simp del]

definition gatewayMode :: "'c ClawdbotConfig_scheme \<Rightarrow> string option" where
  "gatewayMode config = (case cfg_gateway config of None \<Rightarrow> None | Some g \<Rightarrow> gw_mode g)"

definition isRemoteMode :: "'c ClawdbotConfig_scheme \<Rightarrow> bool" where
  "isRemoteMode config = (gatewayMode config = Some ''remote'')"

definition remoteOf :: "'c ClawdbotConfig_scheme \<Rightarrow> GatewayRemote option" where
  "remoteOf config =
     (if isRemoteMode config
      then (case cfg_gateway config of None \<Rightarrow> None | Some g \<Rightarrow> gw_remote g)
      else None)"

definition authOf :: "'c ClawdbotConfig_scheme \<Rightarrow> GatewayAuth option" where
  "authOf config = (case cfg_gateway config of None \<Rightarrow> None | Some g \<Rightarrow> gw_auth g)"

text \<open>\<^verbatim>\<open>x?.field\<close>\<close>

definition optField :: "'a option \<Rightarrow> ('a \<Rightarrow> 'b option) \<Rightarrow> 'b option" where
  "optField x field = (case x of None \<Rightarrow> None | Some r \<Rightarrow> field r)"

definition bindMode :: "'c ClawdbotConfig_scheme \<Rightarrow> string" where
  "bindMode config =
     (case optField (cfg_gateway config) gw_bind of None \<Rightarrow> ''loopback'' | Some b \<Rightarrow> b)"

definition truthyOpt :: "string option \<Rightarrow> bool" where
  "truthyOpt v = (case v of None \<Rightarrow> False | Some s \<Rightarrow> truthyStr s)"

definition preferTailnet :: "'c GatewayEnv \<Rightarrow> bool" where
  "preferTailnet env =
     (bindMode (env_config env) = ''tailnet''
      \<or> (bindMode (env_config env) = ''auto'' \<and> truthyOpt (env_tailnetIPv4 env)))"

definition localUrl :: "'c GatewayEnv \<Rightarrow> string" where
  "localUrl env =
     (case env_tailnetIPv4 env of
        Some ip \<Rightarrow>
          if preferTailnet env \<and> truthyStr ip
          then ''ws://'' @ ip @ '':'' @ showNat (env_localPort env)
          else ''ws://127.0.0.1:'' @ showNat (env_localPort env)
      | None \<Rightarrow> ''ws://127.0.0.1:'' @ showNat (env_localPort env))"

definition urlOverride :: "CallGatewayOptions \<Rightarrow> string option" where
  "urlOverride opts = nonBlank (opt_url opts)"

definition remoteUrl :: "'c GatewayEnv \<Rightarrow> string option" where
  "remoteUrl env = nonBlank (optField (remoteOf (env_config env)) remote_url)"

text \<open>\<^verbatim>\<open>const url = urlOverride || remoteUrl || localUrl;\<close>\<close>

definition callGateway_url :: "CallGatewayOptions \<Rightarrow> 'c GatewayEnv \<Rightarrow> string" where
  "callGateway_url opts env =
     (case jsOr (urlOverride opts) (remoteUrl env) of
        Some u \<Rightarrow> u
      | None \<Rightarrow> localUrl env)"

text \<open>Lines 51 to 62: the token.\<close>

definition callGateway_token :: "CallGatewayOptions \<Rightarrow> 'c GatewayEnv \<Rightarrow> string option" where
  "callGateway_token opts env =
     jsOr (nonBlank (opt_token opts))
       (if isRemoteMode (env_config env)
        then nonBlank (optField (remoteOf (env_config env)) remote_token)
        else jsOr (map_option trim (env_token env))
               (nonBlank (optField (authOf (env_config env)) auth_token)))"

text \<open>Lines 63 to 74: the password.\<close>

definition callGateway_password :: "CallGatewayOptions \<Rightarrow> 'c GatewayEnv \<Rightarrow> string option" where
  "callGateway_password opts env =
     jsOr (jsOr (nonBlank (opt_password opts)) (map_option trim (env_password env)))
       (if isRemoteMode (env_config env)
        then nonBlank (optField (remoteOf (env_config env)) remote_password)
        else nonBlank (optField (authOf (env_config env)) auth_password))"

text \<open>Lines 75 to 95: the diagnostics.\<close>

definition urlSource :: "CallGatewayOptions \<Rightarrow> 'c GatewayEnv \<Rightarrow> string" where
  "urlSource opts env =
     (if truthyOpt (urlOverride opts) then ''cli --url''
      else if truthyOpt (remoteUrl env) then ''config gateway.remote.url''
      else (case env_tailnetIPv4 env of
              Some ip \<Rightarrow> if preferTailnet env \<and> truthyStr ip then ''local tailnet '' @ ip
                         else ''local loopback''
            | None \<Rightarrow> ''local loopback''))"

definition remoteFallbackNote :: "CallGatewayOptions \<Rightarrow> 'c GatewayEnv \<Rightarrow> string option" where
  "remoteFallbackNote opts env =
     (if isRemoteMode (env_config env) \<and> \<not> truthyOpt (urlOverride opts) \<and> \<not> truthyOpt (remoteUrl env)
      then Some ''Note: gateway.mode=remote but gateway.remote.url is missing; using local URL.''
      else None)"

definition bindDetail :: "CallGatewayOptions \<Rightarrow> 'c GatewayEnv \<Rightarrow> string option" where
  "bindDetail opts env =
     (if \<not> truthyOpt (urlOverride opts) \<and> \<not> truthyOpt (remoteUrl env)
      then Some (''Bind: '' @ bindMode (env_config env))
      else None)"

text \<open>\<^verbatim>\<open>lines.join("\n")\<close>\<close>

fun joinLines :: "string list \<Rightarrow> string" where
  "joinLines [] = []"
| "joinLines [l] = l"
| "joinLines (l # ls) = l @ [CHR 0x0A] @ joinLines ls"

text \<open>\<^verbatim>\<open>lines.filter(Boolean)\<close>\<close>

fun filterBoolean :: "string option list \<Rightarrow> string list" where
  "filterBoolean [] = []"
| "filterBoolean (None # ls) = filterBoolean ls"
| "filterBoolean (Some l # ls) = (if truthyStr l then l # filterBoolean ls else filterBoolean ls)"

definition connectionDetails :: "CallGatewayOptions \<Rightarrow> 'c GatewayEnv \<Rightarrow> string" where
  "connectionDetails opts env =
     joinLines
       (filterBoolean
          [Some (''Gateway target: '' @ callGateway_url opts env),
           Some (''Source: '' @ urlSource opts env),
           bindDetail opts env,
           remoteFallbackNote opts env])"

definition timeoutMsOf :: "CallGatewayOptions \<Rightarrow> nat" where
  "timeoutMsOf opts = (case opt_timeoutMs opts of None \<Rightarrow> 10000 | Some t \<Rightarrow> t)"

definition formatCloseError :: "string \<Rightarrow> nat \<Rightarrow> string \<Rightarrow> string" where
  "formatCloseError details code reason =
     (let reasonText = (if truthyStr (trim reason) then trim reason else ''no close reason'');
          hint = (if code = 1006 then ''abnormal closure (no close frame)''
                  else if code = 1000 then ''normal closure''
                  else []);
          suffix = (if truthyStr hint then '' '' @ hint else [])
      in ''gateway closed ('' @ showNat code @ suffix @ ''): '' @ reasonText @ [CHR 0x0A] @ details)"

definition formatTimeoutError :: "string \<Rightarrow> nat \<Rightarrow> string" where
  "formatTimeoutError details timeoutMs =
     ''gateway timeout after '' @ showNat timeoutMs @ ''ms'' @ [CHR 0x0A] @ details"

subsection \<open>Settlement\<close>

text \<open>
  The promise executor (lines 110 to 161) as a machine over the callbacks that the client
  and the timer may run, in any order: the handshake acknowledgement, the completion or
  the failure of the request, a close event, the expiry of the timer.
\<close>

datatype 'e GwError = RequestError 'e | GatewayError string

text \<open>
  \<open>ResolvedUndefined\<close> is \<^verbatim>\<open>resolve(undefined)\<close>. A request may reject with a truthy value
  (\<open>RequestFailed err\<close>, an \<^verbatim>\<open>Error\<close>) or with a falsy one (\<open>RequestFailedFalsy\<close>: \<^verbatim>\<open>undefined\<close>,
  \<^verbatim>\<open>null\<close>, \<^verbatim>\<open>0\<close>, the empty string), which \<^verbatim>\<open>stop\<close> does not take for an error.
\<close>

datatype ('v, 'e) Settlement = Resolved 'v | ResolvedUndefined | Rejected "'e GwError"

datatype ('v, 'e) GwEvent =
  HelloOk
| RequestCompleted 'v
| RequestFailed 'e
| RequestFailedFalsy
| Closed nat string
| TimerFired

text \<open>
  \<open>settlements\<close> lists every call made to \<^verbatim>\<open>resolve\<close> or \<^verbatim>\<open>reject\<close>, in order; the promise
  takes the first. \<open>clientStops\<close> counts the calls of \<^verbatim>\<open>client.stop()\<close>, \<open>requests\<close> the
  requests issued.
\<close>

record ('v, 'e) CallState =
  settled :: bool
  ignoreClose :: bool
  timerCleared :: bool
  settlements :: "('v, 'e) Settlement list"
  clientStops :: nat
  requests :: nat

definition initialCall :: "('v, 'e) CallState" where
  "initialCall = \<lparr> settled = False, ignoreClose = False, timerCleared = False,
                   settlements = [], clientStops = 0, requests = 0 \<rparr>"

text \<open>
  \<^verbatim>\<open>const stop = (err, value) => { if (settled) return; settled = true; clearTimeout(timer);\<close>
  \<^verbatim>\<open>  if (err) reject(err); else resolve(value); }\<close>
  \<open>err\<close> is \<open>None\<close> when the first argument is falsy, \<open>value\<close> is \<open>None\<close> when the second
  argument is missing.
\<close>

definition stop ::
  "'e GwError option \<Rightarrow> 'v option \<Rightarrow> ('v, 'e) CallState \<Rightarrow> ('v, 'e) CallState" where
  "stop err val s =
     (if settled s then s
      else s\<lparr> settled := True, timerCleared := True,
             settlements := settlements s @
               [case err of
                  Some e \<Rightarrow> Rejected e
                | None \<Rightarrow> (case val of Some v \<Rightarrow> Resolved v | None \<Rightarrow> ResolvedUndefined)] \<rparr>)"

definition clientStop :: "('v, 'e) CallState \<Rightarrow> ('v, 'e) CallState" where
  "clientStop s = s\<lparr> clientStops := Suc (clientStops s) \<rparr>"

text \<open>
  One callback. A timer that was cleared does not fire. \<open>details\<close> and \<open>timeoutMs\<close> are the
  connection details and the timeout captured by the closures.
\<close>

fun onEvent :: "string \<Rightarrow> nat \<Rightarrow> ('v, 'e) CallState \<Rightarrow> ('v, 'e) GwEvent \<Rightarrow> ('v, 'e) CallState" where
  "onEvent details timeoutMs s HelloOk = s\<lparr> requests := Suc (requests s) \<rparr>"
| "onEvent details timeoutMs s (RequestCompleted v) =
     clientStop (stop None (Some v) (s\<lparr> ignoreClose := True \<rparr>))"
| "onEvent details timeoutMs s (RequestFailed err) =
     stop (Some (RequestError err)) None (clientStop (s\<lparr> ignoreClose := True \<rparr>))"
| "onEvent details timeoutMs s RequestFailedFalsy =
     stop None None (clientStop (s\<lparr> ignoreClose := True \<rparr>))"
| "onEvent details timeoutMs s (Closed code reason) =
     (if settled s \<or> ignoreClose s then s
      else stop (Some (GatewayError (formatCloseError details code reason))) None
             (clientStop (s\<lparr> ignoreClose := True \<rparr>)))"
| "onEvent details timeoutMs s TimerFired =
     (if timerCleared s then s
      else stop (Some (GatewayError (formatTimeoutError details timeoutMs))) None
             (clientStop (s\<lparr> ignoreClose := True \<rparr>)))"

text \<open>The state after a sequence of callbacks, from the start of the call.\<close>

definition runCall ::
  "CallGatewayOptions \<Rightarrow> 'c GatewayEnv \<Rightarrow> ('v, 'e) GwEvent list \<Rightarrow> ('v, 'e) CallState" where
  "runCall opts env evs =
     foldl (onEvent (connectionDetails opts env) (timeoutMsOf opts)) initialCall evs"

text \<open>
  The value of the \<^verbatim>\<open>await\<close>: the first settlement, \<open>None\<close> while the promise is pending.
\<close>

definition callGateway ::
  "CallGatewayOptions \<Rightarrow> 'c GatewayEnv \<Rightarrow> ('v, 'e) GwEvent list \<Rightarrow> ('v, 'e) Settlement option" where
  "callGateway opts env evs =
     (case settlements (runCall opts env evs) of [] \<Rightarrow> None | outcome # _ \<Rightarrow> Some outcome)"

text \<open>
  The token precedence as the specification words it, a chain in which each level falls
  through to the next: the explicit argument, else (against the remote target) the remote
  token, else the environment's token, else the locally configured token.
\<close>

definition statedTokenPrecedence :: "CallGatewayOptions \<Rightarrow> 'c GatewayEnv \<Rightarrow> string option" where
  "statedTokenPrecedence opts env =
     jsOr (nonBlank (opt_token opts))
       (jsOr (if isRemoteMode (env_config env)
              then nonBlank (optField (remoteOf (env_config env)) remote_token) else None)
          (jsOr (nonBlank (env_token env))
             (nonBlank (optField (authOf (env_config env)) auth_token))))"

subsection \<open>Test configurations\<close>

definition mockGatewayCfg ::
  "string option \<Rightarrow> string option \<Rightarrow> string option \<Rightarrow> string option \<Rightarrow> string option \<Rightarrow> ClawdbotConfig" where
  "mockGatewayCfg mode rUrl rToken aToken bind =
     \<lparr> cfg_signal = None, cfg_imessage = None, cfg_agent = None,
       cfg_gateway = Some \<lparr> gw_mode = mode,
                            gw_remote = Some \<lparr> remote_url = rUrl, remote_token = rToken,
                                                remote_password = None \<rparr>,
                            gw_auth = Some \<lparr> auth_token = aToken, auth_password = None \<rparr>,
                            gw_bind = bind \<rparr> \<rparr>"

definition mockEnv :: "ClawdbotConfig \<Rightarrow> string option \<Rightarrow> string option \<Rightarrow> unit GatewayEnv" where
  "mockEnv config tailnet envTok =
     \<lparr> env_config = config, env_localPort = 18789, env_tailnetIPv4 = tailnet,
       env_token = envTok, env_password = None \<rparr>"

definition mockOpts :: "string option \<Rightarrow> string option \<Rightarrow> CallGatewayOptions" where
  "mockOpts url tok = \<lparr> opt_url = url, opt_token = tok, opt_password = None, opt_timeoutMs = None \<rparr>"

section \<open>Normalisation\<close>

lemma normalizeOutboundPayloads_subseq:
  "subseq (normalizeOutboundPayloads ps) (map normalizeOne ps)"
  by (simp add: normalizeOutboundPayloads_def)

lemma normalizeOutboundPayloads_kept:
  "normalizeOutboundPayloads ps
     = [normalizeOne p. p \<leftarrow> ps, np_text (normalizeOne p) \<noteq> [] \<or> np_mediaUrls (normalizeOne p) \<noteq> []]"
  by (induction ps) (simp_all add: normalizeOutboundPayloads_def keepPayload_def truthyStr_def)

lemma normalizeOne_mediaUrls:
  "np_mediaUrls (normalizeOne p)
     = (case rp_mediaUrls p of
          Some urls \<Rightarrow> urls
        | None \<Rightarrow> (case rp_mediaUrl p of Some u \<Rightarrow> (if u = [] then [] else [u]) | None \<Rightarrow> []))"
  by (simp add: normalizeOne_def truthyStr_def split: option.splits)

text \<open>
  C1 (evaluation of the code at the input of the repository's own test case): a payload
  whose text is a single space and whose explicit media list is empty is kept by
  \<open>normalizeOutboundPayloads\<close>, although its trimmed text is empty and it has no media.
  The filter tests the truthiness of the untrimmed text.
\<close>

theorem normalizeOutboundPayloads_keeps_blank_text:
  "trim '' '' = [] \<and>
   normalizeOutboundPayloads
     [\<lparr>rp_text = Some ''hi'', rp_mediaUrl = None, rp_mediaUrls = None\<rparr>,
      \<lparr>rp_text = None, rp_mediaUrl = Some ''https://x.test/a.jpg'', rp_mediaUrls = None\<rparr>,
      \<lparr>rp_text = Some '' '', rp_mediaUrl = None, rp_mediaUrls = Some []\<rparr>]
   = [\<lparr>np_text = ''hi'', np_mediaUrls = []\<rparr>,
      \<lparr>np_text = [], np_mediaUrls = [''https://x.test/a.jpg'']\<rparr>,
      \<lparr>np_text = '' '', np_mediaUrls = []\<rparr>]"
  by (simp add: normalizeOutboundPayloads_def normalizeOne_def keepPayload_def truthyStr_def
      trim_def isTrimChar_def)

section \<open>The dispatcher: shape of a run\<close>

text \<open>
  The projections distribute over concatenation; a single send leaves one event in the
  trace and pushes its result exactly when it succeeds.
\<close>

lemma okResults_append [simp]: "okResults (xs @ ys) = okResults xs @ okResults ys"
  by (induction xs rule: okResults.induct) auto

lemma sendCalls_append [simp]: "sendCalls (xs @ ys) = sendCalls xs @ sendCalls ys"
  by (induction xs rule: sendCalls.induct) auto

lemma failedSends_append [simp]: "failedSends (xs @ ys) = failedSends xs @ failedSends ys"
  by (induction xs rule: failedSends.induct) auto

lemma onErrorCalls_append [simp]: "onErrorCalls (xs @ ys) = onErrorCalls xs @ onErrorCalls ys"
  by (induction xs rule: onErrorCalls.induct) auto

lemma payloadsOf_append [simp]: "payloadsOf (xs @ ys) = payloadsOf xs @ payloadsOf ys"
  by (induction xs rule: payloadsOf.induct) auto

lemma invokeSend_shape:
  assumes "invokeSend prov f to txt opts st = (r, st', evs)"
  shows "\<exists>out. evs = [EvSend \<lparr> c_provider = prov, c_to = to, c_text = txt, c_opts = opts \<rparr> out]
           \<and> r = errOf out \<and> results st' = results st @ okResults evs"
  using assms
  by (auto simp: invokeSend_def Let_def errOf_def split: prod.splits sum.splits)

lemma sendText_shape:
  assumes "sendText C txt st = (r, st', evs)"
  shows "\<exists>c out. evs = [EvSend c out] \<and> r = errOf out \<and> results st' = results st @ okResults evs
           \<and> c_provider c = cx_provider C \<and> c_to c = cx_to C \<and> c_text c = txt
           \<and> callMediaUrl c = None \<and> callMaxBytes c = ctxMaxBytes C"
proof -
  consider "cx_provider C = Whatsapp" | "cx_provider C = Telegram" | "cx_provider C = Signal"
    | "cx_provider C = IMessage" | "cx_provider C = Slack" | "cx_provider C = Discord"
    by (cases "cx_provider C") auto
  then show ?thesis
  proof cases
    case 1 with assms invokeSend_shape[of Whatsapp _ _ _ _ st r st' evs] show ?thesis
      by (fastforce simp: sendText_def callMediaUrl_def callMaxBytes_def ctxMaxBytes_def)
  next
    case 2 with assms invokeSend_shape[of Telegram _ _ _ _ st r st' evs] show ?thesis
      by (fastforce simp: sendText_def callMediaUrl_def callMaxBytes_def ctxMaxBytes_def)
  next
    case 3 with assms invokeSend_shape[of Signal _ _ _ _ st r st' evs] show ?thesis
      by (fastforce simp: sendText_def callMediaUrl_def callMaxBytes_def ctxMaxBytes_def)
  next
    case 4 with assms invokeSend_shape[of IMessage _ _ _ _ st r st' evs] show ?thesis
      by (fastforce simp: sendText_def callMediaUrl_def callMaxBytes_def ctxMaxBytes_def)
  next
    case 5 with assms invokeSend_shape[of Slack _ _ _ _ st r st' evs] show ?thesis
      by (fastforce simp: sendText_def callMediaUrl_def callMaxBytes_def ctxMaxBytes_def)
  next
    case 6 with assms invokeSend_shape[of Discord _ _ _ _ st r st' evs] show ?thesis
      by (fastforce simp: sendText_def callMediaUrl_def callMaxBytes_def ctxMaxBytes_def)
  qed
qed

lemma sendMedia_shape:
  assumes "sendMedia C caption url st = (r, st', evs)"
  shows "\<exists>c out. evs = [EvSend c out] \<and> r = errOf out \<and> results st' = results st @ okResults evs
           \<and> c_provider c = cx_provider C \<and> c_to c = cx_to C \<and> c_text c = caption
           \<and> callMediaUrl c = Some url \<and> callMaxBytes c = ctxMaxBytes C"
proof -
  consider "cx_provider C = Whatsapp" | "cx_provider C = Telegram" | "cx_provider C = Signal"
    | "cx_provider C = IMessage" | "cx_provider C = Slack" | "cx_provider C = Discord"
    by (cases "cx_provider C") auto
  then show ?thesis
  proof cases
    case 1 with assms invokeSend_shape[of Whatsapp _ _ _ _ st r st' evs] show ?thesis
      by (fastforce simp: sendMedia_def callMediaUrl_def callMaxBytes_def ctxMaxBytes_def)
  next
    case 2 with assms invokeSend_shape[of Telegram _ _ _ _ st r st' evs] show ?thesis
      by (fastforce simp: sendMedia_def callMediaUrl_def callMaxBytes_def ctxMaxBytes_def)
  next
    case 3 with assms invokeSend_shape[of Signal _ _ _ _ st r st' evs] show ?thesis
      by (fastforce simp: sendMedia_def callMediaUrl_def callMaxBytes_def ctxMaxBytes_def)
  next
    case 4 with assms invokeSend_shape[of IMessage _ _ _ _ st r st' evs] show ?thesis
      by (fastforce simp: sendMedia_def callMediaUrl_def callMaxBytes_def ctxMaxBytes_def)
  next
    case 5 with assms invokeSend_shape[of Slack _ _ _ _ st r st' evs] show ?thesis
      by (fastforce simp: sendMedia_def callMediaUrl_def callMaxBytes_def ctxMaxBytes_def)
  next
    case 6 with assms invokeSend_shape[of Discord _ _ _ _ st r st' evs] show ?thesis
      by (fastforce simp: sendMedia_def callMediaUrl_def callMaxBytes_def ctxMaxBytes_def)
  qed
qed

lemma chunkCalls_append [simp]: "chunkCalls (xs @ ys) = chunkCalls xs @ chunkCalls ys"
  by (induction xs rule: chunkCalls.induct) auto

text \<open>Cutting a trace into blocks.\<close>

lemma splitBlocks_append:
  "payloadsOf xs = [] \<Longrightarrow>
     splitBlocks (xs @ ys) = (xs @ fst (splitBlocks ys), snd (splitBlocks ys))"
  by (induction xs rule: payloadsOf.induct) (auto split: prod.splits)

lemma blocksOf_Cons:
  assumes "payloadsOf b = []" and "fst (splitBlocks rest) = []"
  shows "blocksOf (EvPayload p # b @ rest) = (p, b) # blocksOf rest"
    and "fst (splitBlocks (EvPayload p # b @ rest)) = []"
  using assms by (simp_all add: blocksOf_def splitBlocks_append split: prod.splits)

lemma okResults_Cons: "okResults (ev # evs) = okResults [ev] @ okResults evs"
  using okResults_append[of "[ev]" evs] by simp

lemma okResults_splitBlocks:
  "okResults evs
     = okResults (fst (splitBlocks evs)) @ concat (map (\<lambda>(p, b). okResults b) (snd (splitBlocks evs)))"
proof (induction evs)
  case Nil
  then show ?case by simp
next
  case (Cons ev evs)
  obtain pre bs where s: "splitBlocks evs = (pre, bs)" by (cases "splitBlocks evs") auto
  show ?case
  proof (cases "\<exists>p. ev = EvPayload p")
    case True
    then show ?thesis using Cons.IH s by auto
  next
    case False
    then have sb: "splitBlocks (ev # evs) = (ev # pre, bs)" using s by (cases ev) auto
    have "okResults (ev # evs) = okResults [ev] @ okResults evs" by (rule okResults_Cons)
    also have "\<dots> = okResults [ev] @ okResults pre @ concat (map (\<lambda>(p, b). okResults b) bs)"
      using Cons.IH s by simp
    also have "\<dots> = okResults (ev # pre) @ concat (map (\<lambda>(p, b). okResults b) bs)"
      using okResults_Cons[of ev pre] by simp
    finally show ?thesis using sb by simp
  qed
qed

lemma payloadsOf_splitBlocks: "payloadsOf evs = map fst (snd (splitBlocks evs))"
  by (induction evs rule: splitBlocks.induct) (auto split: prod.splits)

text \<open>The events of one \<^verbatim>\<open>try\<close> block.\<close>

lemma tryRun_single: "tryRun r [EvSend c out] = (r = errOf out)"
  by (cases out) (auto simp: errOf_def)

lemma tryRun_ok_append:
  "tryRun None xs \<Longrightarrow> tryRun r (xs @ ys) = tryRun r ys"
  by (induction "None :: 'a option" xs rule: tryRun.induct) auto

lemma tryRun_no_payload:
  "tryRun r xs \<Longrightarrow> payloadsOf xs = [] \<and> onErrorCalls xs = []"
  by (induction r xs rule: tryRun.induct) auto

lemma tryRun_ok_tryFailure: "tryRun None xs \<Longrightarrow> tryFailure xs = None"
  by (induction "None :: 'a option" xs rule: tryRun.induct) auto

lemma tryRun_failed_tryFailure: "tryRun (Some err) xs \<Longrightarrow> tryFailure (xs @ ys) = Some err"
  by (induction "Some err" xs rule: tryRun.induct) auto

lemma tryFailure_append_quiet:
  "tryFailure xs = None \<Longrightarrow> sendCalls ys = [] \<Longrightarrow> chunkCalls ys = []
     \<Longrightarrow> \<forall>err. EvThrew ByOnPayload err \<notin> set ys \<Longrightarrow> tryFailure (xs @ ys) = None"
proof (induction xs rule: tryFailure.induct)
  case 1
  then show ?case by (induction ys rule: tryFailure.induct) auto
qed auto

lemma sendText_run:
  assumes "sendText C body st = (r, st', evs)"
  shows "tryRun r evs"
  using sendText_shape[OF assms] by (auto simp: tryRun_single)

lemma sendMedia_run:
  assumes "sendMedia C cap url st = (r, st', evs)"
  shows "tryRun r evs"
  using sendMedia_shape[OF assms] by (auto simp: tryRun_single)

lemma sendChunks_run: "sendChunks C chunks st = (r, st', evs) \<Longrightarrow> tryRun r evs"
proof (induction chunks arbitrary: st r st' evs)
  case Nil
  then show ?case by simp
next
  case (Cons chunk rest)
  obtain r1 st1 evs1 where h: "sendText C chunk st = (r1, st1, evs1)"
    by (cases "sendText C chunk st") auto
  show ?case
  proof (cases r1)
    case None
    obtain r2 st2 evs2 where t: "sendChunks C rest st1 = (r2, st2, evs2)"
      by (cases "sendChunks C rest st1") auto
    from Cons.prems h None t have "r = r2" "evs = evs1 @ evs2" by auto
    moreover have "tryRun None evs1" using sendText_run[OF h] None by simp
    moreover have "tryRun r2 evs2" using Cons.IH[OF t] .
    ultimately show ?thesis by (simp add: tryRun_ok_append)
  next
    case (Some err)
    with Cons.prems h have "r = Some err" "evs = evs1" by auto
    with sendText_run[OF h] Some show ?thesis by simp
  qed
qed

lemma sendMediaLoop_run:
  "sendMediaLoop C body first urls st = (r, st', evs) \<Longrightarrow> tryRun r evs"
proof (induction urls arbitrary: first st r st' evs)
  case Nil
  then show ?case by simp
next
  case (Cons url rest)
  define cap where "cap = (if first then body else [])"
  obtain r1 st1 evs1 where h: "sendMedia C cap url st = (r1, st1, evs1)"
    by (cases "sendMedia C cap url st") auto
  show ?case
  proof (cases r1)
    case None
    obtain r2 st2 evs2 where t: "sendMediaLoop C body False rest st1 = (r2, st2, evs2)"
      by (cases "sendMediaLoop C body False rest st1") auto
    from Cons.prems h None t have "r = r2" "evs = evs1 @ evs2" by (auto simp: cap_def Let_def)
    moreover have "tryRun None evs1" using sendMedia_run[OF h] None by simp
    moreover have "tryRun r2 evs2" using Cons.IH[OF t] .
    ultimately show ?thesis by (simp add: tryRun_ok_append)
  next
    case (Some err)
    with Cons.prems h have "r = Some err" "evs = evs1" by (auto simp: cap_def Let_def)
    with sendMedia_run[OF h] Some show ?thesis by simp
  qed
qed

text \<open>
  The results list grows by exactly the results of the sends that succeeded, in order.
\<close>

lemma sendChunks_results:
  "sendChunks C chunks st = (r, st', evs) \<Longrightarrow> results st' = results st @ okResults evs"
proof (induction chunks arbitrary: st r st' evs)
  case Nil
  then show ?case by simp
next
  case (Cons chunk rest)
  obtain r1 st1 evs1 where h: "sendText C chunk st = (r1, st1, evs1)"
    by (cases "sendText C chunk st") auto
  have r1: "results st1 = results st @ okResults evs1" using sendText_shape[OF h] by auto
  show ?case
  proof (cases r1)
    case None
    obtain r2 st2 evs2 where t: "sendChunks C rest st1 = (r2, st2, evs2)"
      by (cases "sendChunks C rest st1") auto
    from Cons.prems h None t have "st' = st2" "evs = evs1 @ evs2" by auto
    with Cons.IH[OF t] r1 show ?thesis by simp
  next
    case (Some err)
    with Cons.prems h have "st' = st1" "evs = evs1" by auto
    with r1 show ?thesis by simp
  qed
qed

lemma sendMediaLoop_results:
  "sendMediaLoop C body first urls st = (r, st', evs) \<Longrightarrow> results st' = results st @ okResults evs"
proof (induction urls arbitrary: first st r st' evs)
  case Nil
  then show ?case by simp
next
  case (Cons url rest)
  define cap where "cap = (if first then body else [])"
  obtain r1 st1 evs1 where h: "sendMedia C cap url st = (r1, st1, evs1)"
    by (cases "sendMedia C cap url st") auto
  have r1: "results st1 = results st @ okResults evs1" using sendMedia_shape[OF h] by auto
  show ?case
  proof (cases r1)
    case None
    obtain r2 st2 evs2 where t: "sendMediaLoop C body False rest st1 = (r2, st2, evs2)"
      by (cases "sendMediaLoop C body False rest st1") auto
    from Cons.prems h None t have "st' = st2" "evs = evs1 @ evs2" by (auto simp: cap_def Let_def)
    with Cons.IH[OF t] r1 show ?thesis by simp
  next
    case (Some err)
    with Cons.prems h have "st' = st1" "evs = evs1" by (auto simp: cap_def Let_def)
    with r1 show ?thesis by simp
  qed
qed

text \<open>
  The text branch: either a single \<open>sendText\<close>, or the chunker call followed by the sends of
  its chunks.
\<close>

lemma sendTextChunks_cases:
  assumes "sendTextChunks C body st = (r, st', evs)"
  obtains (plain) "sendText C body st = (r, st', evs)"
        | (threw) k limit err where "evs = [EvChunk k body limit (Inl err)]" "r = Some err" "st' = st"
        | (chunked) k limit chunks evs' where "evs = EvChunk k body limit (Inr chunks) # evs'"
            "sendChunks C chunks st = (r, st', evs')"
proof (cases "cx_chunker C")
  case None
  with assms have "sendText C body st = (r, st', evs)" by (simp add: sendTextChunks_def)
  then show ?thesis by (rule plain)
next
  case (Some k)
  show ?thesis
  proof (cases "cx_textLimit C")
    case None
    with Some assms have "sendText C body st = (r, st', evs)" by (simp add: sendTextChunks_def)
    then show ?thesis by (rule plain)
  next
    case (Some limit)
    with \<open>cx_chunker C = Some k\<close> assms
    have sc: "sendChunked C k body limit (applyChunker C k body limit) st = (r, st', evs)"
      by (simp add: sendTextChunks_def)
    show ?thesis
    proof (cases "applyChunker C k body limit")
      case (Inl err)
      with sc have "evs = [EvChunk k body limit (Inl err)]" "r = Some err" "st' = st"
        by (simp_all add: sendChunked_def)
      then show ?thesis by (rule threw)
    next
      case (Inr chunks)
      obtain r2 st2 evs2 where t: "sendChunks C chunks st = (r2, st2, evs2)"
        by (cases "sendChunks C chunks st") auto
      with sc Inr have "evs = EvChunk k body limit (Inr chunks) # evs2" "r = r2" "st' = st2"
        by (simp_all add: sendChunked_def)
      with t show ?thesis using chunked by blast
    qed
  qed
qed

lemma sendTextChunks_run:
  assumes "sendTextChunks C body st = (r, st', evs)"
  shows "tryRun r evs"
  using assms
proof (cases rule: sendTextChunks_cases)
  case plain
  then show ?thesis by (rule sendText_run)
next
  case (threw k limit err)
  then show ?thesis by simp
next
  case (chunked k limit chunks evs')
  with sendChunks_run[OF chunked(2)] show ?thesis by simp
qed

lemma sendTextChunks_results:
  assumes "sendTextChunks C body st = (r, st', evs)"
  shows "results st' = results st @ okResults evs"
  using assms
proof (cases rule: sendTextChunks_cases)
  case plain
  from sendText_shape[OF this] show ?thesis by auto
next
  case (threw k limit err)
  then show ?thesis by simp
next
  case (chunked k limit chunks evs')
  with sendChunks_results[OF chunked(2)] show ?thesis by simp
qed

text \<open>One payload: the \<^verbatim>\<open>try\<close> block, the \<^verbatim>\<open>catch\<close> block, the iteration.\<close>

lemma tryPayload_cases:
  assumes "tryPayload C p st = (r, st', evs)"
  obtains (vetoed) err w1 where "callOnPayload C p (world st) = (Some err, w1)"
            "evs = [EvPayload p, EvThrew ByOnPayload err]" "r = Some err" "st' = st\<lparr>world := w1\<rparr>"
        | (textual) w1 body where "callOnPayload C p (world st) = (None, w1)" "np_mediaUrls p = []"
            "sendTextChunks C (np_text p) (st\<lparr>world := w1\<rparr>) = (r, st', body)"
            "evs = EvPayload p # body"
        | (media) w1 body where "callOnPayload C p (world st) = (None, w1)" "np_mediaUrls p \<noteq> []"
            "sendMediaLoop C (np_text p) True (np_mediaUrls p) (st\<lparr>world := w1\<rparr>) = (r, st', body)"
            "evs = EvPayload p # body"
proof -
  obtain v w1 where cb: "callOnPayload C p (world st) = (v, w1)"
    by (cases "callOnPayload C p (world st)") auto
  show ?thesis
  proof (cases v)
    case (Some err)
    with cb assms have "evs = [EvPayload p, EvThrew ByOnPayload err]" "r = Some err"
        "st' = st\<lparr>world := w1\<rparr>"
      by (simp_all add: tryPayload_def)
    with cb Some show ?thesis using vetoed by blast
  next
    case None
    show ?thesis
    proof (cases "np_mediaUrls p = []")
      case True
      obtain r2 st2 body where t: "sendTextChunks C (np_text p) (st\<lparr>world := w1\<rparr>) = (r2, st2, body)"
        by (cases "sendTextChunks C (np_text p) (st\<lparr>world := w1\<rparr>)") auto
      with cb None True assms have "r = r2" "st' = st2" "evs = EvPayload p # body"
        by (simp_all add: tryPayload_def)
      with t cb None True show ?thesis using textual by blast
    next
      case False
      obtain r2 st2 body where
        t: "sendMediaLoop C (np_text p) True (np_mediaUrls p) (st\<lparr>world := w1\<rparr>) = (r2, st2, body)"
        by (cases "sendMediaLoop C (np_text p) True (np_mediaUrls p) (st\<lparr>world := w1\<rparr>)") auto
      with cb None False assms have "r = r2" "st' = st2" "evs = EvPayload p # body"
        by (simp_all add: tryPayload_def)
      with t cb None False show ?thesis using media by blast
    qed
  qed
qed

lemma tryPayload_shape:
  assumes "tryPayload C p st = (r, st', evs)"
  shows "\<exists>body. evs = EvPayload p # body \<and> tryRun r body
           \<and> results st' = results st @ okResults body"
  using assms
proof (cases rule: tryPayload_cases)
  case (vetoed err w1)
  then show ?thesis by simp
next
  case (textual w1 body)
  with sendTextChunks_run[OF textual(3)] sendTextChunks_results[OF textual(3)]
  show ?thesis by simp
next
  case (media w1 body)
  with sendMediaLoop_run[OF media(3)] sendMediaLoop_results[OF media(3)]
  show ?thesis by simp
qed

lemma catchPayload_shape:
  assumes "catchPayload C err p st = (r, st', tail)"
  shows "results st' = results st" and "okResults tail = []" and "sendCalls tail = []"
    and "chunkCalls tail = []" and "payloadsOf tail = []" and "failedSends tail = []"
    and "tryFailure tail = None"
    and "onErrorCalls tail = (if isBestEffort C \<and> cx_onError C \<noteq> None then [(err, p)] else [])"
    and "\<not> isBestEffort C \<Longrightarrow> tail = [] \<and> r = Some err"
  using assms
  by (auto simp: catchPayload_def split: if_splits option.splits prod.splits)

lemma tryFailure_tail:
  "tryRun (Some err) body \<Longrightarrow> tryFailure (body @ tail) = Some err"
  by (rule tryRun_failed_tryFailure)

lemma loopBody_cases:
  assumes "loopBody C p st = (r, st', evs)"
  obtains (completed) body where "tryPayload C p st = (None, st', EvPayload p # body)"
            "tryRun None body" "evs = EvPayload p # body" "r = None"
        | (failed) err st1 body tail where "tryPayload C p st = (Some err, st1, EvPayload p # body)"
            "tryRun (Some err) body" "catchPayload C err p st1 = (r, st', tail)"
            "evs = EvPayload p # body @ tail"
proof -
  obtain r1 st1 evs1 where t: "tryPayload C p st = (r1, st1, evs1)"
    by (cases "tryPayload C p st") auto
  from tryPayload_shape[OF t] obtain body where
    b: "evs1 = EvPayload p # body" "tryRun r1 body" by auto
  show ?thesis
  proof (cases r1)
    case None
    with assms t have "r = None" "st' = st1" "evs = evs1" by (simp_all add: loopBody_def)
    with t b None show ?thesis using completed by blast
  next
    case (Some err)
    obtain r2 st2 tail where c: "catchPayload C err p st1 = (r2, st2, tail)"
      by (cases "catchPayload C err p st1") auto
    with assms t Some have "r = r2" "st' = st2" "evs = evs1 @ tail" by (simp_all add: loopBody_def)
    with t b Some c show ?thesis using failed by auto
  qed
qed

lemma loopBody_shape:
  assumes "loopBody C p st = (r, st', evs)"
  shows "\<exists>b. evs = EvPayload p # b \<and> payloadsOf b = []
           \<and> results st' = results st @ okResults b"
  using assms
proof (cases rule: loopBody_cases)
  case (completed body)
  from tryPayload_shape[OF completed(1)] tryRun_no_payload[OF completed(2)] completed(3)
  show ?thesis by simp
next
  case (failed err st1 body tail)
  from tryPayload_shape[OF failed(1)] have "results st1 = results st @ okResults body" by simp
  with catchPayload_shape[OF failed(3)] tryRun_no_payload[OF failed(2)] failed(4)
  show ?thesis by simp
qed

text \<open>The loop.\<close>

lemma deliverLoop_results:
  "deliverLoop C ps st = (r, st', evs) \<Longrightarrow> results st' = results st @ okResults evs"
proof (induction ps arbitrary: st r st' evs)
  case Nil
  then show ?case by simp
next
  case (Cons p rest)
  obtain r1 st1 evs1 where h: "loopBody C p st = (r1, st1, evs1)"
    by (cases "loopBody C p st") auto
  from loopBody_shape[OF h] have r1: "results st1 = results st @ okResults evs1" by auto
  show ?case
  proof (cases r1)
    case None
    obtain r2 st2 evs2 where t: "deliverLoop C rest st1 = (r2, st2, evs2)"
      by (cases "deliverLoop C rest st1") auto
    from Cons.prems h None t have "st' = st2" "evs = evs1 @ evs2" by auto
    with Cons.IH[OF t] r1 show ?thesis by simp
  next
    case (Some err)
    with Cons.prems h have "st' = st1" "evs = evs1" by auto
    with r1 show ?thesis by simp
  qed
qed

lemma deliverLoop_blocks:
  "deliverLoop C ps st = (r, st', evs) \<Longrightarrow>
     fst (splitBlocks evs) = []
     \<and> prefix (map fst (blocksOf evs)) ps
     \<and> (r = None \<longrightarrow> map fst (blocksOf evs) = ps)
     \<and> (\<forall>(p, b) \<in> set (blocksOf evs).
           \<exists>st0 r1 st1. loopBody C p st0 = (r1, st1, EvPayload p # b))"
proof (induction ps arbitrary: st r st' evs)
  case Nil
  then show ?case by (simp add: blocksOf_def)
next
  case (Cons p rest)
  obtain r1 st1 evs1 where h: "loopBody C p st = (r1, st1, evs1)"
    by (cases "loopBody C p st") auto
  from loopBody_shape[OF h] obtain b where b: "evs1 = EvPayload p # b" "payloadsOf b = []"
    by auto
  have own: "\<exists>st0 r1 st1. loopBody C p st0 = (r1, st1, EvPayload p # b)"
    using h b by blast
  show ?case
  proof (cases r1)
    case None
    obtain r2 st2 evs2 where t: "deliverLoop C rest st1 = (r2, st2, evs2)"
      by (cases "deliverLoop C rest st1") auto
    from Cons.prems h None t have e: "r = r2" "evs = EvPayload p # b @ evs2" using b by auto
    from Cons.IH[OF t] have ih: "fst (splitBlocks evs2) = []"
      "prefix (map fst (blocksOf evs2)) rest"
      "r2 = None \<longrightarrow> map fst (blocksOf evs2) = rest"
      "\<forall>(p, b) \<in> set (blocksOf evs2). \<exists>st0 r1 st1. loopBody C p st0 = (r1, st1, EvPayload p # b)"
      by simp_all
    have bl: "blocksOf evs = (p, b) # blocksOf evs2" "fst (splitBlocks evs) = []"
      unfolding e using blocksOf_Cons[OF b(2) ih(1)] by simp_all
    show ?thesis unfolding bl using ih own e by simp
  next
    case (Some err)
    with Cons.prems h have e: "r = Some err" "evs = EvPayload p # b @ []" using b by auto
    have bl: "blocksOf evs = (p, b) # blocksOf []" "fst (splitBlocks evs) = []"
      unfolding e using blocksOf_Cons[of b "[]" p] b(2) by simp_all
    show ?thesis unfolding bl using own e by (simp add: blocksOf_def)
  qed
qed

text \<open>Outside best-effort mode the first failure ends the trace.\<close>

lemma tryRun_strictRun: "tryRun r xs \<Longrightarrow> strictRun r xs"
  by (induction r xs rule: tryRun.induct) auto

lemma strictRun_ok_append: "strictRun None xs \<Longrightarrow> strictRun r (xs @ ys) = strictRun r ys"
  by (induction "None :: 'a option" xs rule: strictRun.induct) auto

lemma strictRun_no_onError: "strictRun r evs \<Longrightarrow> onErrorCalls evs = []"
  by (induction r evs rule: strictRun.induct) auto

lemma strictRun_failed_send:
  "strictRun r evs \<Longrightarrow> failedSends evs \<noteq> [] \<Longrightarrow>
     \<exists>c err. r = Some err \<and> evs \<noteq> [] \<and> last evs = EvSend c (Inl err) \<and> failedSends evs = [err]"
  by (induction r evs rule: strictRun.induct) (auto split: if_splits)

lemma deliverLoop_strict:
  assumes nbe: "\<not> isBestEffort C"
  shows "deliverLoop C ps st = (r, st', evs) \<Longrightarrow> strictRun r evs"
proof (induction ps arbitrary: st r st' evs)
  case Nil
  then show ?case by auto
next
  case (Cons p rest)
  obtain r1 st1 evs1 where h: "loopBody C p st = (r1, st1, evs1)"
    by (cases "loopBody C p st") auto
  have sr: "strictRun r1 evs1"
    using h
  proof (cases rule: loopBody_cases)
    case (completed body)
    with tryRun_strictRun[OF completed(2)] show ?thesis by simp
  next
    case (failed err st2 body tail)
    from catchPayload_shape(9)[OF failed(3) nbe] have "tail = []" "r1 = Some err" by simp_all
    with tryRun_strictRun[OF failed(2)] failed(4) show ?thesis by simp
  qed
  show ?case
  proof (cases r1)
    case None
    obtain r2 st2 evs2 where t: "deliverLoop C rest st1 = (r2, st2, evs2)"
      by (cases "deliverLoop C rest st1") auto
    from Cons.prems h None t have e: "r = r2" "evs = evs1 @ evs2" by auto
    show ?thesis using Cons.IH[OF t] sr None e by (simp add: strictRun_ok_append)
  next
    case (Some err)
    with Cons.prems h have e: "r = Some err" "evs = evs1" by auto
    with sr Some show ?thesis by simp
  qed
qed

text \<open>Every send call of a delivery carries the ceiling of its provider.\<close>

lemma sendChunks_maxBytes:
  "sendChunks C chunks st = (r, st', evs) \<Longrightarrow> c \<in> set (sendCalls evs) \<Longrightarrow>
     callMaxBytes c = ctxMaxBytes C"
proof (induction chunks arbitrary: st r st' evs)
  case Nil
  then show ?case by simp
next
  case (Cons chunk rest)
  obtain r1 st1 evs1 where h: "sendText C chunk st = (r1, st1, evs1)"
    by (cases "sendText C chunk st") auto
  from sendText_shape[OF h] obtain c1 out where
    c1: "evs1 = [EvSend c1 out]" "callMaxBytes c1 = ctxMaxBytes C" by auto
  show ?case
  proof (cases r1)
    case None
    obtain r2 st2 evs2 where t: "sendChunks C rest st1 = (r2, st2, evs2)"
      by (cases "sendChunks C rest st1") auto
    from Cons.prems(1) h None t have "evs = evs1 @ evs2" by auto
    with Cons.prems(2) c1 have "c = c1 \<or> c \<in> set (sendCalls evs2)" by auto
    with c1 Cons.IH[OF t] show ?thesis by auto
  next
    case (Some err)
    with Cons.prems(1) h have "evs = evs1" by auto
    with Cons.prems(2) c1 show ?thesis by auto
  qed
qed

lemma sendMediaLoop_maxBytes:
  "sendMediaLoop C body first urls st = (r, st', evs) \<Longrightarrow> c \<in> set (sendCalls evs) \<Longrightarrow>
     callMaxBytes c = ctxMaxBytes C"
proof (induction urls arbitrary: first st r st' evs)
  case Nil
  then show ?case by simp
next
  case (Cons url rest)
  define cap where "cap = (if first then body else [])"
  obtain r1 st1 evs1 where h: "sendMedia C cap url st = (r1, st1, evs1)"
    by (cases "sendMedia C cap url st") auto
  from sendMedia_shape[OF h] obtain c1 out where
    c1: "evs1 = [EvSend c1 out]" "callMaxBytes c1 = ctxMaxBytes C" by auto
  show ?case
  proof (cases r1)
    case None
    obtain r2 st2 evs2 where t: "sendMediaLoop C body False rest st1 = (r2, st2, evs2)"
      by (cases "sendMediaLoop C body False rest st1") auto
    from Cons.prems(1) h None t have "evs = evs1 @ evs2" by (auto simp: cap_def Let_def)
    with Cons.prems(2) c1 have "c = c1 \<or> c \<in> set (sendCalls evs2)" by auto
    with c1 Cons.IH[OF t] show ?thesis by auto
  next
    case (Some err)
    with Cons.prems(1) h have "evs = evs1" by (auto simp: cap_def Let_def)
    with Cons.prems(2) c1 show ?thesis by auto
  qed
qed

lemma sendTextChunks_maxBytes:
  assumes "sendTextChunks C body st = (r, st', evs)" and "c \<in> set (sendCalls evs)"
  shows "callMaxBytes c = ctxMaxBytes C"
  using assms(1)
proof (cases rule: sendTextChunks_cases)
  case plain
  from sendText_shape[OF this] assms(2) show ?thesis by auto
next
  case (threw k limit err)
  with assms(2) show ?thesis by simp
next
  case (chunked k limit chunks evs')
  with assms(2) have "c \<in> set (sendCalls evs')" by simp
  from sendChunks_maxBytes[OF chunked(2) this] show ?thesis .
qed

lemma tryPayload_maxBytes:
  assumes "tryPayload C p st = (r, st', evs)" and "c \<in> set (sendCalls evs)"
  shows "callMaxBytes c = ctxMaxBytes C"
  using assms(1)
proof (cases rule: tryPayload_cases)
  case (vetoed err w1)
  with assms(2) show ?thesis by simp
next
  case (textual w1 body)
  with assms(2) have "c \<in> set (sendCalls body)" by simp
  from sendTextChunks_maxBytes[OF textual(3) this] show ?thesis .
next
  case (media w1 body)
  with assms(2) have "c \<in> set (sendCalls body)" by simp
  from sendMediaLoop_maxBytes[OF media(3) this] show ?thesis .
qed

lemma loopBody_maxBytes:
  assumes "loopBody C p st = (r, st', evs)" and "c \<in> set (sendCalls evs)"
  shows "callMaxBytes c = ctxMaxBytes C"
  using assms(1)
proof (cases rule: loopBody_cases)
  case (completed body)
  with assms(2) tryPayload_maxBytes[OF completed(1)] show ?thesis by simp
next
  case (failed err st1 body tail)
  with assms(2) catchPayload_shape(3)[OF failed(3)]
  have "c \<in> set (sendCalls (EvPayload p # body))" by simp
  from tryPayload_maxBytes[OF failed(1) this] show ?thesis .
qed

lemma deliverLoop_maxBytes:
  "deliverLoop C ps st = (r, st', evs) \<Longrightarrow> c \<in> set (sendCalls evs) \<Longrightarrow>
     callMaxBytes c = ctxMaxBytes C"
proof (induction ps arbitrary: st r st' evs)
  case Nil
  then show ?case by simp
next
  case (Cons p rest)
  obtain r1 st1 evs1 where h: "loopBody C p st = (r1, st1, evs1)"
    by (cases "loopBody C p st") auto
  note one = loopBody_maxBytes[OF h]
  show ?case
  proof (cases r1)
    case None
    obtain r2 st2 evs2 where t: "deliverLoop C rest st1 = (r2, st2, evs2)"
      by (cases "deliverLoop C rest st1") auto
    from Cons.prems(1) h None t have "evs = evs1 @ evs2" by auto
    with Cons.prems(2) have "c \<in> set (sendCalls evs1) \<or> c \<in> set (sendCalls evs2)" by auto
    with one Cons.IH[OF t] show ?thesis by auto
  next
    case (Some err)
    with Cons.prems(1) h have "evs = evs1" by auto
    with Cons.prems(2) one show ?thesis by auto
  qed
qed

text \<open>The call and its loop.\<close>

lemma deliverOutboundPayloads_loop:
  assumes "deliverOutboundPayloads lib params w = (res, w', evs)"
  obtains r st where
    "deliverLoop (mkCtx lib params) (normalizeOutboundPayloads (p_payloads params))
       \<lparr> world = w, results = [] \<rparr> = (r, st, evs)"
    "res = (case r of Some err \<Rightarrow> Inl err | None \<Rightarrow> Inr (results st))"
proof -
  obtain r st evs' where
    h: "deliverLoop (mkCtx lib params) (normalizeOutboundPayloads (p_payloads params))
          \<lparr> world = w, results = [] \<rparr> = (r, st, evs')"
    by (cases "deliverLoop (mkCtx lib params) (normalizeOutboundPayloads (p_payloads params))
          \<lparr> world = w, results = [] \<rparr>") auto
  have unf: "deliverOutboundPayloads lib params w =
      (case r of Some err \<Rightarrow> (Inl err, world st, evs') | None \<Rightarrow> (Inr (results st), world st, evs'))"
    unfolding deliverOutboundPayloads_def h by (cases r) simp_all
  have "evs' = evs" "res = (case r of Some err \<Rightarrow> Inl err | None \<Rightarrow> Inr (results st))"
    using unf assms by (cases r; simp)+
  with h show ?thesis using that by blast
qed

lemma sendMediaLoop_calls:
  "sendMediaLoop C body first urls st = (r, st', evs) \<Longrightarrow>
     prefix (map c_text (sendCalls evs))
            (if first then mediaCaptions body (length urls) else replicate (length urls) [])
     \<and> prefix (map callMediaUrl (sendCalls evs)) (map Some urls)
     \<and> (urls \<noteq> [] \<longrightarrow> sendCalls evs \<noteq> [])
     \<and> (r = None \<longrightarrow> length (sendCalls evs) = length urls)"
proof (induction urls arbitrary: first st r st' evs)
  case Nil
  then show ?case by simp
next
  case (Cons url rest)
  define cap where "cap = (if first then body else [])"
  obtain r1 st1 evs1 where h: "sendMedia C cap url st = (r1, st1, evs1)"
    by (cases "sendMedia C cap url st") auto
  from sendMedia_shape[OF h] obtain c out where
    c: "evs1 = [EvSend c out]" "c_text c = cap" "callMediaUrl c = Some url" by auto
  have caps: "(if first then mediaCaptions body (length (url # rest)) else replicate (length (url # rest)) [])
      = cap # replicate (length rest) []"
    by (simp add: cap_def mediaCaptions_def)
  show ?case
  proof (cases r1)
    case None
    obtain r2 st2 evs2 where t: "sendMediaLoop C body False rest st1 = (r2, st2, evs2)"
      by (cases "sendMediaLoop C body False rest st1") auto
    from Cons.prems h None t have e: "r = r2" "evs = evs1 @ evs2" by (auto simp: cap_def Let_def)
    from Cons.IH[OF t] have ih: "prefix (map c_text (sendCalls evs2)) (replicate (length rest) [])"
       "prefix (map callMediaUrl (sendCalls evs2)) (map Some rest)"
       "r2 = None \<longrightarrow> length (sendCalls evs2) = length rest" by simp_all
    show ?thesis unfolding caps using ih e c by simp
  next
    case (Some err)
    with Cons.prems h have e: "r = Some err" "evs = evs1" by (auto simp: cap_def Let_def)
    show ?thesis unfolding caps using e c by simp
  qed
qed


lemma sendMediaLoop_no_chunk:
  "sendMediaLoop C body first urls st = (r, st', evs) \<Longrightarrow> chunkCalls evs = []"
proof (induction urls arbitrary: first st r st' evs)
  case Nil
  then show ?case by simp
next
  case (Cons url rest)
  define cap where "cap = (if first then body else [])"
  obtain r1 st1 evs1 where h: "sendMedia C cap url st = (r1, st1, evs1)"
    by (cases "sendMedia C cap url st") auto
  from sendMedia_shape[OF h] have c1: "chunkCalls evs1 = []" by auto
  show ?case
  proof (cases r1)
    case None
    obtain r2 st2 evs2 where t: "sendMediaLoop C body False rest st1 = (r2, st2, evs2)"
      by (cases "sendMediaLoop C body False rest st1") auto
    from Cons.prems h None t have "evs = evs1 @ evs2" by (auto simp: cap_def Let_def)
    with Cons.IH[OF t] c1 show ?thesis by simp
  next
    case (Some err)
    with Cons.prems h have "evs = evs1" by (auto simp: cap_def Let_def)
    with c1 show ?thesis by simp
  qed
qed

lemma tryRun_one_failure: "tryRun r xs \<Longrightarrow> length (failedSends xs) \<le> 1"
  by (induction r xs rule: tryRun.induct) auto

text \<open>What one iteration does for a payload, by the kind of the payload and by its failure.\<close>

lemma loopBody_onError:
  assumes "isBestEffort C" and "loopBody C p st = (r, st', EvPayload p # b)"
  shows "onErrorCalls b =
     (case tryFailure b of
        None \<Rightarrow> []
      | Some err \<Rightarrow> if cx_onError C = None then [] else [(err, p)])"
  using assms(2)
proof (cases rule: loopBody_cases)
  case (completed body)
  with tryRun_ok_tryFailure[OF completed(2)] tryRun_no_payload[OF completed(2)]
  show ?thesis by simp
next
  case (failed err st1 body tail)
  have b: "b = body @ tail" using failed(4) by simp
  from tryRun_failed_tryFailure[OF failed(2), of tail] tryRun_no_payload[OF failed(2)]
    catchPayload_shape(8)[OF failed(3)] assms(1)
  show ?thesis unfolding b by simp
qed

lemma loopBody_media:
  assumes "np_mediaUrls p \<noteq> []" and "loopBody C p st = (r, st', EvPayload p # b)"
  shows "prefix (map c_text (sendCalls b)) (np_text p # replicate (length (np_mediaUrls p) - 1) [])"
    and "prefix (map callMediaUrl (sendCalls b)) (map Some (np_mediaUrls p))"
    and "tryFailure b = None \<longrightarrow> length (sendCalls b) = length (np_mediaUrls p)"
    and "sendCalls b = [] \<longrightarrow> (\<exists>err tail. b = EvThrew ByOnPayload err # tail)"
    and "length (failedSends b) \<le> 1"
    and "chunkCalls b = []"
proof -
  obtain r1 st1 body tail where
    t: "tryPayload C p st = (r1, st1, EvPayload p # body)" and run: "tryRun r1 body"
    and b: "b = body @ tail" and quiet: "sendCalls tail = []" "chunkCalls tail = []"
      "failedSends tail = []"
    and fail: "tryFailure b = r1"
    using assms(2)
  proof (cases rule: loopBody_cases)
    case (completed body)
    from completed tryRun_ok_tryFailure[OF completed(2)] show ?thesis
      using that[of None st' body "[]"] by simp
  next
    case (failed err st1 body tail)
    from failed catchPayload_shape(3,4,6)[OF failed(3)] tryRun_failed_tryFailure[OF failed(2), of tail]
    show ?thesis using that[of "Some err" st1 body tail] by simp
  qed
  have mc: "mediaCaptions (np_text p) (length (np_mediaUrls p))
      = np_text p # replicate (length (np_mediaUrls p) - 1) []"
    using assms(1) by (cases "np_mediaUrls p") (simp_all add: mediaCaptions_def)
  have sc: "sendCalls b = sendCalls body" "chunkCalls b = chunkCalls body"
    "failedSends b = failedSends body"
    using b quiet by simp_all
  from t have all: "prefix (map c_text (sendCalls body)) (np_text p # replicate (length (np_mediaUrls p) - 1) [])
      \<and> prefix (map callMediaUrl (sendCalls body)) (map Some (np_mediaUrls p))
      \<and> (r1 = None \<longrightarrow> length (sendCalls body) = length (np_mediaUrls p))
      \<and> (sendCalls body = [] \<longrightarrow> (\<exists>err. body = [EvThrew ByOnPayload err]))
      \<and> chunkCalls body = []"
  proof (cases rule: tryPayload_cases)
    case (vetoed err w1)
    then show ?thesis by simp
  next
    case (textual w1 body')
    with assms(1) show ?thesis by simp
  next
    case (media w1 body')
    then have eq: "body' = body" by simp
    from sendMediaLoop_calls[OF media(3)] sendMediaLoop_no_chunk[OF media(3)] assms(1)
    show ?thesis unfolding eq mc by simp
  qed
  from all show "prefix (map c_text (sendCalls b)) (np_text p # replicate (length (np_mediaUrls p) - 1) [])"
    unfolding sc by simp
  from all show "prefix (map callMediaUrl (sendCalls b)) (map Some (np_mediaUrls p))"
    unfolding sc by simp
  from all fail show "tryFailure b = None \<longrightarrow> length (sendCalls b) = length (np_mediaUrls p)"
    unfolding sc by simp
  from all b show "sendCalls b = [] \<longrightarrow> (\<exists>err tail. b = EvThrew ByOnPayload err # tail)"
    unfolding sc by auto
  from tryRun_one_failure[OF run] show "length (failedSends b) \<le> 1" unfolding sc .
  from all show "chunkCalls b = []" unfolding sc by simp
qed

section \<open>The dispatcher: failure policies\<close>

lemmas mock_defs = mockLib_def mockParams_def mockCfg_def mockDeps_def mockSend_def mockChunk_def
  textPayload_def mediaPayload_def mockCtx_def mockStart_def

lemmas deliver_defs = deliverOutboundPayloads_def mkCtx_def normalizeOutboundPayloads_def
  normalizeOne_def keepPayload_def truthyStr_def resolveChunker_def loopBody_def tryPayload_def
  callOnPayload_def sendTextChunks_def sendChunked_def applyChunker_def sendText_def sendMedia_def
  invokeSend_def isBestEffort_def catchPayload_def resolveSignalMaxBytes_def
  resolveIMessageMaxBytes_def truthyNum_def sectionMediaMaxMb_def timesMB_def MB_def

text \<open>
  C2, as stated, at two concrete calls under best-effort mode. In the first, a payload
  with two media URLs has its first send resolve and its second reject: the payload fails
  (\<^verbatim>\<open>onError\<close> is invoked for it), and yet it contributes one entry to the returned list. In
  the second, no \<^verbatim>\<open>onError\<close> callback is given: the failing payload yields no invocation.
\<close>

theorem bestEffort_failing_payload_counterexample:
  "deliverOutboundPayloads mockLib
     (mockParams (mockCfg None None None) Whatsapp [mediaPayload ''cap'' [''ok'', ''bad'']] (Some True)) 0
   = (Inr [\<lparr> dr_provider = Whatsapp, dr_res = 0 \<rparr>], 2,
      [EvPayload \<lparr> np_text = ''cap'', np_mediaUrls = [''ok'', ''bad''] \<rparr>,
       EvSend \<lparr> c_provider = Whatsapp, c_to = ''+1555'', c_text = ''cap'',
                c_opts = Some \<lparr> o_verbose = Some False, o_mediaUrl = Some ''ok'', o_token = None,
                                 o_maxBytes = None \<rparr> \<rparr> (Inr 0),
       EvSend \<lparr> c_provider = Whatsapp, c_to = ''+1555'', c_text = [],
                c_opts = Some \<lparr> o_verbose = Some False, o_mediaUrl = Some ''bad'', o_token = None,
                                 o_maxBytes = None \<rparr> \<rparr> (Inl ''rejected''),
       EvOnError ''rejected'' \<lparr> np_text = ''cap'', np_mediaUrls = [''ok'', ''bad''] \<rparr>])
   \<and> deliverOutboundPayloads mockLib
     ((mockParams (mockCfg None None None) Slack [textPayload ''bad''] (Some True))
        \<lparr> p_onError := None \<rparr>) 0
   = (Inr [], 1,
      [EvPayload \<lparr> np_text = ''bad'', np_mediaUrls = [] \<rparr>,
       EvSend \<lparr> c_provider = Slack, c_to = ''+1555'', c_text = ''bad'', c_opts = None \<rparr>
         (Inl ''rejected'')])"
  by (simp add: deliver_defs mock_defs)

text \<open>
  C2, amended: under best-effort mode, the list that the call returns is exactly the
  results of the sends that succeeded, in the order in which they succeeded, and the
  dispatcher got to every normalized payload; a payload contributes the results of those
  of its sends that succeeded, also when it fails; and each failing payload (a send
  rejects, a chunker or \<^verbatim>\<open>onPayload\<close> throws) yields exactly one \<^verbatim>\<open>onError\<close> invocation,
  with its error, when an \<^verbatim>\<open>onError\<close> callback is given, a payload that does not fail none.
\<close>

theorem deliverOutboundPayloads_bestEffort:
  assumes "p_bestEffort params = Some True"
    and "deliverOutboundPayloads lib params w = (res, w', evs)"
  shows "(\<forall>rs. res = Inr rs \<longrightarrow>
            rs = okResults evs
            \<and> map fst (blocksOf evs) = normalizeOutboundPayloads (p_payloads params))
         \<and> okResults evs = concat (map (\<lambda>(p, b). okResults b) (blocksOf evs))
         \<and> (\<forall>(p, b) \<in> set (blocksOf evs).
               onErrorCalls b =
                 (case tryFailure b of
                    None \<Rightarrow> []
                  | Some err \<Rightarrow> if p_onError params = None then [] else [(err, p)]))"
proof -
  define C where "C = mkCtx lib params"
  from assms(2) obtain r st where
    h: "deliverLoop C (normalizeOutboundPayloads (p_payloads params))
          \<lparr> world = w, results = [] \<rparr> = (r, st, evs)"
    and res: "res = (case r of Some err \<Rightarrow> Inl err | None \<Rightarrow> Inr (results st))"
    unfolding C_def by (rule deliverOutboundPayloads_loop)
  have be: "isBestEffort C" using assms(1) by (simp add: C_def mkCtx_def isBestEffort_def Let_def)
  have oe: "cx_onError C = p_onError params" by (simp add: C_def mkCtx_def Let_def)
  from deliverLoop_blocks[OF h] have pre: "fst (splitBlocks evs) = []"
    and full: "r = None \<longrightarrow> map fst (blocksOf evs) = normalizeOutboundPayloads (p_payloads params)"
    and each: "\<forall>(p, b) \<in> set (blocksOf evs).
           \<exists>st0 r1 st1. loopBody C p st0 = (r1, st1, EvPayload p # b)"
    by simp_all
  from deliverLoop_results[OF h] have rs: "results st = okResults evs" by simp
  have a: "\<forall>rs. res = Inr rs \<longrightarrow>
            rs = okResults evs
            \<and> map fst (blocksOf evs) = normalizeOutboundPayloads (p_payloads params)"
    using res rs full by (cases r) simp_all
  have b: "okResults evs = concat (map (\<lambda>(p, b). okResults b) (blocksOf evs))"
    using okResults_splitBlocks[of evs] pre by (simp add: blocksOf_def)
  have "onErrorCalls b =
          (case tryFailure b of
             None \<Rightarrow> []
           | Some err \<Rightarrow> if p_onError params = None then [] else [(err, p)])"
    if "(p, b) \<in> set (blocksOf evs)" for p b
  proof -
    from each that obtain st0 r1 st1 where "loopBody C p st0 = (r1, st1, EvPayload p # b)"
      by blast
    from loopBody_onError[OF be this] show ?thesis unfolding oe .
  qed
  then have c: "\<forall>(p, b) \<in> set (blocksOf evs).
               onErrorCalls b =
                 (case tryFailure b of
                    None \<Rightarrow> []
                  | Some err \<Rightarrow> if p_onError params = None then [] else [(err, p)])"
    by blast
  from a b c show ?thesis by (intro conjI)
qed

theorem deliverOutboundPayloads_bestEffort_witness:
  "p_bestEffort (mockParams (mockCfg None None None) Slack
       [textPayload ''bad'', textPayload ''b''] (Some True)) = Some True
   \<and> deliverOutboundPayloads mockLib
       (mockParams (mockCfg None None None) Slack [textPayload ''bad'', textPayload ''b''] (Some True)) 0
     = (Inr [\<lparr> dr_provider = Slack, dr_res = 1 \<rparr>], 2,
        [EvPayload \<lparr> np_text = ''bad'', np_mediaUrls = [] \<rparr>,
         EvSend \<lparr> c_provider = Slack, c_to = ''+1555'', c_text = ''bad'', c_opts = None \<rparr>
           (Inl ''rejected''),
         EvOnError ''rejected'' \<lparr> np_text = ''bad'', np_mediaUrls = [] \<rparr>,
         EvPayload \<lparr> np_text = ''b'', np_mediaUrls = [] \<rparr>,
         EvSend \<lparr> c_provider = Slack, c_to = ''+1555'', c_text = ''b'', c_opts = None \<rparr> (Inr 1)])
   \<and> onErrorCalls
        [EvSend \<lparr> c_provider = Slack, c_to = ''+1555'', c_text = ''bad'', c_opts = None \<rparr>
           (Inl ''rejected'' :: string + nat),
         EvOnError ''rejected'' \<lparr> np_text = ''bad'', np_mediaUrls = [] \<rparr>]
     = [(''rejected'', \<lparr> np_text = ''bad'', np_mediaUrls = [] \<rparr>)]"
proof -
  let ?P = "mockParams (mockCfg None None None) Slack [textPayload ''bad'', textPayload ''b''] (Some True)"
  let ?pb = "\<lparr> np_text = ''bad'', np_mediaUrls = [] \<rparr>"
  let ?b = "[EvSend \<lparr> c_provider = Slack, c_to = ''+1555'', c_text = ''bad'', c_opts = None \<rparr>
           (Inl ''rejected'' :: string + nat),
         EvOnError ''rejected'' ?pb]"
  let ?evs = "[EvPayload ?pb,
         EvSend \<lparr> c_provider = Slack, c_to = ''+1555'', c_text = ''bad'', c_opts = None \<rparr>
           (Inl ''rejected''),
         EvOnError ''rejected'' ?pb,
         EvPayload \<lparr> np_text = ''b'', np_mediaUrls = [] \<rparr>,
         EvSend \<lparr> c_provider = Slack, c_to = ''+1555'', c_text = ''b'', c_opts = None \<rparr> (Inr 1)]
       :: (string, nat) Event list"
  have be: "p_bestEffort ?P = Some True" by (simp add: mockParams_def)
  have run: "deliverOutboundPayloads mockLib ?P 0
     = (Inr [\<lparr> dr_provider = Slack, dr_res = 1 \<rparr>], 2, ?evs)"
    by (simp add: deliver_defs mock_defs)
  have mem: "(?pb, ?b) \<in> set (blocksOf ?evs)" by (simp add: blocksOf_def)
  from deliverOutboundPayloads_bestEffort[OF be run] mem
  have "onErrorCalls ?b =
          (case tryFailure ?b of
             None \<Rightarrow> []
           | Some err \<Rightarrow> if p_onError ?P = None then [] else [(err, ?pb)])"
    by blast
  then have "onErrorCalls ?b = [(''rejected'', ?pb)]" by (simp add: mockParams_def)
  with be run show ?thesis by (intro conjI)
qed

text \<open>
  C6: when best-effort mode is not enabled and a send fails, the call rejects with that
  send's error (\<open>Inl\<close>: no list is returned, whatever was accumulated), the failing send is
  the last thing the call does (no further send, no further payload, no \<^verbatim>\<open>onError\<close>), and
  the payloads attempted are a prefix of the normalized payloads.
\<close>

theorem deliverOutboundPayloads_strict:
  assumes "p_bestEffort params \<noteq> Some True"
    and "deliverOutboundPayloads lib params w = (res, w', evs)"
    and "failedSends evs \<noteq> []"
  shows "\<exists>c err. res = Inl err \<and> evs \<noteq> [] \<and> last evs = EvSend c (Inl err)
           \<and> failedSends evs = [err] \<and> onErrorCalls evs = []
           \<and> prefix (payloadsOf evs) (normalizeOutboundPayloads (p_payloads params))"
proof -
  from assms(2) obtain r st where
    h: "deliverLoop (mkCtx lib params) (normalizeOutboundPayloads (p_payloads params))
          \<lparr> world = w, results = [] \<rparr> = (r, st, evs)"
    and res: "res = (case r of Some err \<Rightarrow> Inl err | None \<Rightarrow> Inr (results st))"
    by (rule deliverOutboundPayloads_loop)
  have nbe: "\<not> isBestEffort (mkCtx lib params)"
    using assms(1) by (simp add: mkCtx_def isBestEffort_def Let_def)
  from deliverLoop_strict[OF nbe h] have sr: "strictRun r evs" .
  from strictRun_failed_send[OF sr assms(3)] obtain c err where
    c: "r = Some err" "evs \<noteq> []" "last evs = EvSend c (Inl err)" "failedSends evs = [err]"
    by blast
  have oe: "onErrorCalls evs = []" using strictRun_no_onError[OF sr] .
  have pf: "prefix (payloadsOf evs) (normalizeOutboundPayloads (p_payloads params))"
    using deliverLoop_blocks[OF h] by (simp add: payloadsOf_splitBlocks blocksOf_def)
  have "res = Inl err" using res c(1) by simp
  with c oe pf show ?thesis by blast
qed

theorem deliverOutboundPayloads_strict_witness:
  "p_bestEffort (mockParams (mockCfg None None None) Slack
       [textPayload ''a'', textPayload ''bad'', textPayload ''c''] None) \<noteq> Some True
   \<and> okResults
        [EvPayload \<lparr> np_text = ''a'', np_mediaUrls = [] \<rparr>,
         EvSend \<lparr> c_provider = Slack, c_to = ''+1555'', c_text = ''a'', c_opts = None \<rparr> (Inr 0),
         EvPayload \<lparr> np_text = ''bad'', np_mediaUrls = [] \<rparr>,
         EvSend \<lparr> c_provider = Slack, c_to = ''+1555'', c_text = ''bad'', c_opts = None \<rparr>
           (Inl ''rejected'' :: string + nat)]
       = [\<lparr> dr_provider = Slack, dr_res = 0 \<rparr>]
   \<and> (\<exists>c err. (Inl ''rejected'' :: string + nat OutboundDeliveryResult list) = Inl err
        \<and> last [EvPayload \<lparr> np_text = ''a'', np_mediaUrls = [] \<rparr>,
                 EvSend \<lparr> c_provider = Slack, c_to = ''+1555'', c_text = ''a'', c_opts = None \<rparr> (Inr 0),
                 EvPayload \<lparr> np_text = ''bad'', np_mediaUrls = [] \<rparr>,
                 EvSend \<lparr> c_provider = Slack, c_to = ''+1555'', c_text = ''bad'', c_opts = None \<rparr>
                   (Inl ''rejected'')]
            = EvSend c (Inl err))"
proof -
  have run: "deliverOutboundPayloads mockLib
          (mockParams (mockCfg None None None) Slack
             [textPayload ''a'', textPayload ''bad'', textPayload ''c''] None) 0
        = (Inl ''rejected'', 2,
           [EvPayload \<lparr> np_text = ''a'', np_mediaUrls = [] \<rparr>,
            EvSend \<lparr> c_provider = Slack, c_to = ''+1555'', c_text = ''a'', c_opts = None \<rparr> (Inr 0),
            EvPayload \<lparr> np_text = ''bad'', np_mediaUrls = [] \<rparr>,
            EvSend \<lparr> c_provider = Slack, c_to = ''+1555'', c_text = ''bad'', c_opts = None \<rparr>
              (Inl ''rejected'')])"
    by (simp add: deliver_defs mock_defs)
  from deliverOutboundPayloads_strict[OF _ run] show ?thesis
    by (simp add: mockParams_def)
qed


section \<open>The dispatcher: media payloads\<close>

text \<open>
  C7, as stated, at three concrete calls, each with a normalized payload that has media
  URLs. A payload with two URLs whose first send rejects gets one media send call, not
  two. A payload whose \<^verbatim>\<open>onPayload\<close> callback throws gets none. Outside best-effort mode, a
  payload that follows a failing one gets none either.
\<close>

theorem media_send_calls_counterexample:
  "sendCalls (snd (snd (deliverOutboundPayloads mockLib
     (mockParams (mockCfg None None None) Discord [mediaPayload ''cap'' [''bad'', ''ok'']] (Some True)) 0)))
   = [\<lparr> c_provider = Discord, c_to = ''+1555'', c_text = ''cap'',
        c_opts = Some \<lparr> o_verbose = Some False, o_mediaUrl = Some ''bad'', o_token = None,
                         o_maxBytes = None \<rparr> \<rparr>]
   \<and> normalizeOutboundPayloads [mediaPayload ''cap'' [''bad'', ''ok'']]
       = [\<lparr> np_text = ''cap'', np_mediaUrls = [''bad'', ''ok''] \<rparr>]
   \<and> sendCalls (snd (snd (deliverOutboundPayloads mockLib
        (mockParams (mockCfg None None None) Discord [mediaPayload ''veto'' [''u1'']] (Some True)) 0)))
       = []
   \<and> normalizeOutboundPayloads [mediaPayload ''veto'' [''u1'']]
       = [\<lparr> np_text = ''veto'', np_mediaUrls = [''u1''] \<rparr>]
   \<and> sendCalls (snd (snd (deliverOutboundPayloads mockLib
        (mockParams (mockCfg None None None) Slack
           [textPayload ''bad'', mediaPayload ''cap'' [''u1'']] None) 0)))
       = [\<lparr> c_provider = Slack, c_to = ''+1555'', c_text = ''bad'', c_opts = None \<rparr>]
   \<and> normalizeOutboundPayloads [textPayload ''bad'', mediaPayload ''cap'' [''u1'']]
       = [\<lparr> np_text = ''bad'', np_mediaUrls = [] \<rparr>, \<lparr> np_text = ''cap'', np_mediaUrls = [''u1''] \<rparr>]"
  by (simp add: deliver_defs mock_defs)

text \<open>
  C7, amended: the payloads that the dispatcher gets to are an initial segment of the
  normalized payloads, all of them when the call returns a list. For each of them that has
  a non-empty media list of N URLs, the send calls issued for it are media send calls for
  the first n URLs, in list order, for some n up to N: n is N when nothing fails for the
  payload, n is 0 only when \<^verbatim>\<open>onPayload\<close> throws, and at most one of the calls fails. The
  first call carries the payload's text as caption, every later one the empty string.
\<close>

theorem media_send_calls:
  assumes "deliverOutboundPayloads lib params w = (res, w', evs)"
  shows "prefix (map fst (blocksOf evs)) (normalizeOutboundPayloads (p_payloads params))
         \<and> (\<forall>rs. res = Inr rs \<longrightarrow>
               map fst (blocksOf evs) = normalizeOutboundPayloads (p_payloads params))
         \<and> (\<forall>(p, b) \<in> set (blocksOf evs). np_mediaUrls p \<noteq> [] \<longrightarrow>
               prefix (map c_text (sendCalls b))
                 (np_text p # replicate (length (np_mediaUrls p) - 1) [])
               \<and> prefix (map callMediaUrl (sendCalls b)) (map Some (np_mediaUrls p))
               \<and> (tryFailure b = None \<longrightarrow> length (sendCalls b) = length (np_mediaUrls p))
               \<and> (sendCalls b = [] \<longrightarrow> (\<exists>err tail. b = EvThrew ByOnPayload err # tail))
               \<and> length (failedSends b) \<le> 1)"
proof -
  define C where "C = mkCtx lib params"
  from assms obtain r st where
    h: "deliverLoop C (normalizeOutboundPayloads (p_payloads params))
          \<lparr> world = w, results = [] \<rparr> = (r, st, evs)"
    and res: "res = (case r of Some err \<Rightarrow> Inl err | None \<Rightarrow> Inr (results st))"
    unfolding C_def by (rule deliverOutboundPayloads_loop)
  from deliverLoop_blocks[OF h] have
    pf: "prefix (map fst (blocksOf evs)) (normalizeOutboundPayloads (p_payloads params))"
    and full: "r = None \<longrightarrow> map fst (blocksOf evs) = normalizeOutboundPayloads (p_payloads params)"
    and each: "\<forall>(p, b) \<in> set (blocksOf evs).
           \<exists>st0 r1 st1. loopBody C p st0 = (r1, st1, EvPayload p # b)"
    by simp_all
  have a: "\<forall>rs. res = Inr rs \<longrightarrow>
               map fst (blocksOf evs) = normalizeOutboundPayloads (p_payloads params)"
    using res full by (cases r) simp_all
  have "prefix (map c_text (sendCalls b))
                 (np_text p # replicate (length (np_mediaUrls p) - 1) [])
               \<and> prefix (map callMediaUrl (sendCalls b)) (map Some (np_mediaUrls p))
               \<and> (tryFailure b = None \<longrightarrow> length (sendCalls b) = length (np_mediaUrls p))
               \<and> (sendCalls b = [] \<longrightarrow> (\<exists>err tail. b = EvThrew ByOnPayload err # tail))
               \<and> length (failedSends b) \<le> 1"
    if "(p, b) \<in> set (blocksOf evs)" and ne: "np_mediaUrls p \<noteq> []" for p b
  proof -
    from each that(1) obtain st0 r1 st1 where l: "loopBody C p st0 = (r1, st1, EvPayload p # b)"
      by blast
    from loopBody_media(1-5)[OF ne l] show ?thesis by (intro conjI)
  qed
  then have c: "\<forall>(p, b) \<in> set (blocksOf evs). np_mediaUrls p \<noteq> [] \<longrightarrow>
               prefix (map c_text (sendCalls b))
                 (np_text p # replicate (length (np_mediaUrls p) - 1) [])
               \<and> prefix (map callMediaUrl (sendCalls b)) (map Some (np_mediaUrls p))
               \<and> (tryFailure b = None \<longrightarrow> length (sendCalls b) = length (np_mediaUrls p))
               \<and> (sendCalls b = [] \<longrightarrow> (\<exists>err tail. b = EvThrew ByOnPayload err # tail))
               \<and> length (failedSends b) \<le> 1"
    by blast
  from pf a c show ?thesis by (intro conjI)
qed

theorem media_send_calls_witness:
  "deliverOutboundPayloads mockLib
       (mockParams (mockCfg None None None) Slack [mediaPayload ''caption'' [''u1'', ''u2'', ''u3'']] None) 0
     = (Inr [\<lparr> dr_provider = Slack, dr_res = 0 \<rparr>, \<lparr> dr_provider = Slack, dr_res = 1 \<rparr>,
             \<lparr> dr_provider = Slack, dr_res = 2 \<rparr>], 3,
        [EvPayload \<lparr> np_text = ''caption'', np_mediaUrls = [''u1'', ''u2'', ''u3''] \<rparr>,
         EvSend \<lparr> c_provider = Slack, c_to = ''+1555'', c_text = ''caption'',
                  c_opts = Some \<lparr> o_verbose = None, o_mediaUrl = Some ''u1'', o_token = None,
                                  o_maxBytes = None \<rparr> \<rparr> (Inr 0),
         EvSend \<lparr> c_provider = Slack, c_to = ''+1555'', c_text = [],
                  c_opts = Some \<lparr> o_verbose = None, o_mediaUrl = Some ''u2'', o_token = None,
                                  o_maxBytes = None \<rparr> \<rparr> (Inr 1),
         EvSend \<lparr> c_provider = Slack, c_to = ''+1555'', c_text = [],
                  c_opts = Some \<lparr> o_verbose = None, o_mediaUrl = Some ''u3'', o_token = None,
                                  o_maxBytes = None \<rparr> \<rparr> (Inr 2)])
   \<and> map fst (blocksOf (snd (snd (deliverOutboundPayloads mockLib
         (mockParams (mockCfg None None None) Slack [mediaPayload ''caption'' [''u1'', ''u2'', ''u3'']] None) 0))))
     = normalizeOutboundPayloads
         (p_payloads (mockParams (mockCfg None None None) Slack
            [mediaPayload ''caption'' [''u1'', ''u2'', ''u3'']] None))
   \<and> length (sendCalls
        [EvSend \<lparr> c_provider = Slack, c_to = ''+1555'', c_text = ''caption'',
                  c_opts = Some \<lparr> o_verbose = None, o_mediaUrl = Some ''u1'', o_token = None,
                                  o_maxBytes = None \<rparr> \<rparr> (Inr 0 :: string + nat),
         EvSend \<lparr> c_provider = Slack, c_to = ''+1555'', c_text = [],
                  c_opts = Some \<lparr> o_verbose = None, o_mediaUrl = Some ''u2'', o_token = None,
                                  o_maxBytes = None \<rparr> \<rparr> (Inr 1),
         EvSend \<lparr> c_provider = Slack, c_to = ''+1555'', c_text = [],
                  c_opts = Some \<lparr> o_verbose = None, o_mediaUrl = Some ''u3'', o_token = None,
                                  o_maxBytes = None \<rparr> \<rparr> (Inr 2)])
     = length (np_mediaUrls \<lparr> np_text = ''caption'', np_mediaUrls = [''u1'', ''u2'', ''u3''] \<rparr>)"
proof -
  let ?P = "mockParams (mockCfg None None None) Slack [mediaPayload ''caption'' [''u1'', ''u2'', ''u3'']] None"
  let ?p = "\<lparr> np_text = ''caption'', np_mediaUrls = [''u1'', ''u2'', ''u3''] \<rparr>"
  let ?b = "[EvSend \<lparr> c_provider = Slack, c_to = ''+1555'', c_text = ''caption'',
                  c_opts = Some \<lparr> o_verbose = None, o_mediaUrl = Some ''u1'', o_token = None,
                                  o_maxBytes = None \<rparr> \<rparr> (Inr 0 :: string + nat),
         EvSend \<lparr> c_provider = Slack, c_to = ''+1555'', c_text = [],
                  c_opts = Some \<lparr> o_verbose = None, o_mediaUrl = Some ''u2'', o_token = None,
                                  o_maxBytes = None \<rparr> \<rparr> (Inr 1),
         EvSend \<lparr> c_provider = Slack, c_to = ''+1555'', c_text = [],
                  c_opts = Some \<lparr> o_verbose = None, o_mediaUrl = Some ''u3'', o_token = None,
                                  o_maxBytes = None \<rparr> \<rparr> (Inr 2)]"
  have run: "deliverOutboundPayloads mockLib ?P 0
     = (Inr [\<lparr> dr_provider = Slack, dr_res = 0 \<rparr>, \<lparr> dr_provider = Slack, dr_res = 1 \<rparr>,
             \<lparr> dr_provider = Slack, dr_res = 2 \<rparr>], 3, EvPayload ?p # ?b)"
    by (simp add: deliver_defs mock_defs)
  note inst = media_send_calls[OF run]
  have all: "map fst (blocksOf (EvPayload ?p # ?b)) = normalizeOutboundPayloads (p_payloads ?P)"
    using inst[THEN conjunct2, THEN conjunct1] by (rule allE[where x = "[\<lparr> dr_provider = Slack, dr_res = 0 \<rparr>, \<lparr> dr_provider = Slack, dr_res = 1 \<rparr>,
             \<lparr> dr_provider = Slack, dr_res = 2 \<rparr>]"]) (erule mp, rule refl)
  have mem: "(?p, ?b) \<in> set (blocksOf (EvPayload ?p # ?b))" by (simp add: blocksOf_def)
  have ne: "np_mediaUrls ?p \<noteq> []" and ok: "tryFailure ?b = None" by simp_all
  note n = bspec[OF inst[THEN conjunct2, THEN conjunct2] mem, unfolded prod.case, THEN mp, OF ne,
      THEN conjunct2, THEN conjunct2, THEN conjunct1, THEN mp, OF ok]
  have r: "snd (snd (deliverOutboundPayloads mockLib ?P 0)) = EvPayload ?p # ?b"
    unfolding run by simp
  show ?thesis unfolding r using run all n by (intro conjI)
qed

text \<open>
  C10, as stated, at two concrete calls, each with a normalized payload that has a media
  URL and whose text is never sent: in the first \<^verbatim>\<open>onPayload\<close> throws for it, in the second
  (outside best-effort mode) the payload before it fails and the call rejects.
\<close>

theorem media_payload_not_chunked_counterexample:
  "normalizeOutboundPayloads [mediaPayload ''veto'' [''u1'']]
       = [\<lparr> np_text = ''veto'', np_mediaUrls = [''u1''] \<rparr>]
   \<and> deliverOutboundPayloads mockLib
        (mockParams (mockCfg None None None) Telegram [mediaPayload ''veto'' [''u1'']] (Some True)) 0
       = (Inr [], 0,
          [EvPayload \<lparr> np_text = ''veto'', np_mediaUrls = [''u1''] \<rparr>,
           EvThrew ByOnPayload ''vetoed'',
           EvOnError ''vetoed'' \<lparr> np_text = ''veto'', np_mediaUrls = [''u1''] \<rparr>])
   \<and> normalizeOutboundPayloads [textPayload ''bad'', mediaPayload ''cap'' [''u1'']]
       = [\<lparr> np_text = ''bad'', np_mediaUrls = [] \<rparr>, \<lparr> np_text = ''cap'', np_mediaUrls = [''u1''] \<rparr>]
   \<and> deliverOutboundPayloads mockLib
        (mockParams (mockCfg None None None) Discord
           [textPayload ''bad'', mediaPayload ''cap'' [''u1'']] None) 0
       = (Inl ''rejected'', 1,
          [EvPayload \<lparr> np_text = ''bad'', np_mediaUrls = [] \<rparr>,
           EvSend \<lparr> c_provider = Discord, c_to = ''+1555'', c_text = ''bad'',
                    c_opts = Some \<lparr> o_verbose = Some False, o_mediaUrl = None, o_token = None,
                                    o_maxBytes = None \<rparr> \<rparr> (Inl ''rejected'')])"
  by (simp add: deliver_defs mock_defs)

text \<open>
  C10, amended: for every normalized payload with a non-empty media list that the
  dispatcher gets to (every one, when the call returns a list), no chunker is called, and
  unless \<^verbatim>\<open>onPayload\<close> throws for it, the first send call issued for it carries the payload's
  whole text as the caption of the first media URL, whatever the text's length. A chunker
  is called only for payloads without media.
\<close>

theorem media_payload_not_chunked:
  assumes "deliverOutboundPayloads lib params w = (res, w', evs)"
  shows "(\<forall>rs. res = Inr rs \<longrightarrow>
            map fst (blocksOf evs) = normalizeOutboundPayloads (p_payloads params))
         \<and> (\<forall>(p, b) \<in> set (blocksOf evs). np_mediaUrls p \<noteq> [] \<longrightarrow>
               chunkCalls b = []
               \<and> (case sendCalls b of
                     [] \<Rightarrow> (\<exists>err tail. b = EvThrew ByOnPayload err # tail)
                   | c # cs \<Rightarrow> c_text c = np_text p \<and> callMediaUrl c = Some (hd (np_mediaUrls p))))
         \<and> (\<forall>(p, b) \<in> set (blocksOf evs). chunkCalls b \<noteq> [] \<longrightarrow> np_mediaUrls p = [])"
proof -
  define C where "C = mkCtx lib params"
  from assms obtain r st where
    h: "deliverLoop C (normalizeOutboundPayloads (p_payloads params))
          \<lparr> world = w, results = [] \<rparr> = (r, st, evs)"
    and res: "res = (case r of Some err \<Rightarrow> Inl err | None \<Rightarrow> Inr (results st))"
    unfolding C_def by (rule deliverOutboundPayloads_loop)
  from deliverLoop_blocks[OF h] have
    full: "r = None \<longrightarrow> map fst (blocksOf evs) = normalizeOutboundPayloads (p_payloads params)"
    and each: "\<forall>(p, b) \<in> set (blocksOf evs).
           \<exists>st0 r1 st1. loopBody C p st0 = (r1, st1, EvPayload p # b)"
    by simp_all
  have a: "\<forall>rs. res = Inr rs \<longrightarrow>
               map fst (blocksOf evs) = normalizeOutboundPayloads (p_payloads params)"
    using res full by (cases r) simp_all
  have one: "chunkCalls b = []
               \<and> (case sendCalls b of
                     [] \<Rightarrow> (\<exists>err tail. b = EvThrew ByOnPayload err # tail)
                   | c # cs \<Rightarrow> c_text c = np_text p \<and> callMediaUrl c = Some (hd (np_mediaUrls p)))"
    if "(p, b) \<in> set (blocksOf evs)" and ne: "np_mediaUrls p \<noteq> []" for p b
  proof -
    from each that(1) obtain st0 r1 st1 where l: "loopBody C p st0 = (r1, st1, EvPayload p # b)"
      by blast
    note m = loopBody_media[OF ne l]
    obtain url urls where u: "np_mediaUrls p = url # urls" using ne by (cases "np_mediaUrls p") auto
    show ?thesis
    proof (cases "sendCalls b")
      case Nil
      with m(4) m(6) show ?thesis by simp
    next
      case (Cons c cs)
      from m(1) Cons have "c_text c = np_text p" by simp
      moreover from m(2) Cons u have "callMediaUrl c = Some (hd (np_mediaUrls p))" by simp
      ultimately show ?thesis using Cons m(6) by simp
    qed
  qed
  then have b: "\<forall>(p, b) \<in> set (blocksOf evs). np_mediaUrls p \<noteq> [] \<longrightarrow>
               chunkCalls b = []
               \<and> (case sendCalls b of
                     [] \<Rightarrow> (\<exists>err tail. b = EvThrew ByOnPayload err # tail)
                   | c # cs \<Rightarrow> c_text c = np_text p \<and> callMediaUrl c = Some (hd (np_mediaUrls p)))"
    by blast
  from one have c: "\<forall>(p, b) \<in> set (blocksOf evs). chunkCalls b \<noteq> [] \<longrightarrow> np_mediaUrls p = []"
    by blast
  from a b c show ?thesis by (intro conjI)
qed

theorem media_payload_not_chunked_witness:
  "cx_textLimit (mockCtx Telegram) = Some 4
   \<and> deliverOutboundPayloads mockLib
       (mockParams (mockCfg None None None) Telegram [mediaPayload ''a long caption'' [''u1'']] None) 0
     = (Inr [\<lparr> dr_provider = Telegram, dr_res = 0 \<rparr>], 1,
        [EvPayload \<lparr> np_text = ''a long caption'', np_mediaUrls = [''u1''] \<rparr>,
         EvSend \<lparr> c_provider = Telegram, c_to = ''+1555'', c_text = ''a long caption'',
                  c_opts = Some \<lparr> o_verbose = Some False, o_mediaUrl = Some ''u1'',
                                  o_token = Some ''tok-1'', o_maxBytes = None \<rparr> \<rparr> (Inr 0)])
   \<and> chunkCalls
        [EvSend \<lparr> c_provider = Telegram, c_to = ''+1555'', c_text = ''a long caption'',
                  c_opts = Some \<lparr> o_verbose = Some False, o_mediaUrl = Some ''u1'',
                                  o_token = Some ''tok-1'', o_maxBytes = None \<rparr> \<rparr>
           (Inr 0 :: string + nat)] = []"
proof -
  let ?P = "mockParams (mockCfg None None None) Telegram [mediaPayload ''a long caption'' [''u1'']] None"
  let ?p = "\<lparr> np_text = ''a long caption'', np_mediaUrls = [''u1''] \<rparr>"
  let ?b = "[EvSend \<lparr> c_provider = Telegram, c_to = ''+1555'', c_text = ''a long caption'',
                  c_opts = Some \<lparr> o_verbose = Some False, o_mediaUrl = Some ''u1'',
                                  o_token = Some ''tok-1'', o_maxBytes = None \<rparr> \<rparr>
           (Inr 0 :: string + nat)]"
  have lim: "cx_textLimit (mockCtx Telegram) = Some 4" by (simp add: deliver_defs mock_defs)
  have run: "deliverOutboundPayloads mockLib ?P 0
     = (Inr [\<lparr> dr_provider = Telegram, dr_res = 0 \<rparr>], 1, EvPayload ?p # ?b)"
    by (simp add: deliver_defs mock_defs)
  note inst = media_payload_not_chunked[OF run]
  have mem: "(?p, ?b) \<in> set (blocksOf (EvPayload ?p # ?b))" by (simp add: blocksOf_def)
  have ne: "np_mediaUrls ?p \<noteq> []" by simp
  note n = bspec[OF inst[THEN conjunct2, THEN conjunct1] mem, unfolded prod.case, THEN mp, OF ne,
      THEN conjunct1]
  from lim run n show ?thesis by (intro conjI)
qed

section \<open>The dispatcher: per-provider policy\<close>

text \<open>
  C8: the chunker is a function of the provider alone: Telegram, and only Telegram, gets
  the markdown chunker; WhatsApp, Signal and iMessage, and only they, the plain-text
  chunker; Slack and Discord none. The text limit is resolved exactly when there is a
  chunker; with a chunker a text goes to that chunker under that limit and the chunks it
  returns are sent in order, and without one the text is sent by a single \<open>sendText\<close>.
\<close>

theorem chunker_policy:
  "{provider. resolveChunker provider = Some ChunkMarkdownText} = {Telegram}
   \<and> {provider. resolveChunker provider = Some ChunkText} = {Whatsapp, Signal, IMessage}
   \<and> {provider. resolveChunker provider = None} = {Slack, Discord}
   \<and> cx_chunker (mkCtx lib params) = resolveChunker (p_provider params)
   \<and> cx_textLimit (mkCtx lib params)
       = (if resolveChunker (p_provider params) = None then None
          else Some (resolveTextChunkLimit lib (p_cfg params) (p_provider params)))
   \<and> sendTextChunks (mkCtx lib params) body st
       = (case resolveChunker (p_provider params) of
            None \<Rightarrow> sendText (mkCtx lib params) body st
          | Some ChunkMarkdownText \<Rightarrow>
              sendChunked (mkCtx lib params) ChunkMarkdownText body
                (resolveTextChunkLimit lib (p_cfg params) (p_provider params))
                (chunkMarkdownText lib body (resolveTextChunkLimit lib (p_cfg params) (p_provider params))) st
          | Some ChunkText \<Rightarrow>
              sendChunked (mkCtx lib params) ChunkText body
                (resolveTextChunkLimit lib (p_cfg params) (p_provider params))
                (chunkText lib body (resolveTextChunkLimit lib (p_cfg params) (p_provider params))) st)
   \<and> sendChunked (mkCtx lib params) k body limit (Inr chunks) st
       = (case sendChunks (mkCtx lib params) chunks st of
            (r, st', evs) \<Rightarrow> (r, st', EvChunk k body limit (Inr chunks) # evs))"
proof (intro conjI)
  show "{provider. resolveChunker provider = Some ChunkMarkdownText} = {Telegram}"
    by (auto simp: resolveChunker_def split: if_splits)
  show "{provider. resolveChunker provider = Some ChunkText} = {Whatsapp, Signal, IMessage}"
    by (auto simp: resolveChunker_def split: if_splits)
  show "{provider. resolveChunker provider = None} = {Slack, Discord}"
  proof -
    have "resolveChunker provider = None \<longleftrightarrow> provider = Slack \<or> provider = Discord" for provider
      by (cases provider) (simp_all add: resolveChunker_def)
    then show ?thesis by auto
  qed
  show "cx_chunker (mkCtx lib params) = resolveChunker (p_provider params)"
    by (simp add: mkCtx_def Let_def)
  show "cx_textLimit (mkCtx lib params)
       = (if resolveChunker (p_provider params) = None then None
          else Some (resolveTextChunkLimit lib (p_cfg params) (p_provider params)))"
    by (simp add: mkCtx_def Let_def split: option.splits)
  show "sendTextChunks (mkCtx lib params) body st
       = (case resolveChunker (p_provider params) of
            None \<Rightarrow> sendText (mkCtx lib params) body st
          | Some ChunkMarkdownText \<Rightarrow>
              sendChunked (mkCtx lib params) ChunkMarkdownText body
                (resolveTextChunkLimit lib (p_cfg params) (p_provider params))
                (chunkMarkdownText lib body (resolveTextChunkLimit lib (p_cfg params) (p_provider params))) st
          | Some ChunkText \<Rightarrow>
              sendChunked (mkCtx lib params) ChunkText body
                (resolveTextChunkLimit lib (p_cfg params) (p_provider params))
                (chunkText lib body (resolveTextChunkLimit lib (p_cfg params) (p_provider params))) st)"
  proof -
    have a: "cx_chunker (mkCtx lib params) = resolveChunker (p_provider params)"
      and b: "cx_chunkMarkdownText (mkCtx lib params) = chunkMarkdownText lib"
      and c: "cx_chunkText (mkCtx lib params) = chunkText lib"
      and d: "cx_textLimit (mkCtx lib params)
          = (case resolveChunker (p_provider params) of None \<Rightarrow> None
             | Some _ \<Rightarrow> Some (resolveTextChunkLimit lib (p_cfg params) (p_provider params)))"
      by (simp_all add: mkCtx_def Let_def)
    show ?thesis unfolding sendTextChunks_def applyChunker_def a b c d
      by (simp split: option.splits Chunker.splits)
  qed
  show "sendChunked (mkCtx lib params) k body limit (Inr chunks) st
       = (case sendChunks (mkCtx lib params) chunks st of
            (r, st', evs) \<Rightarrow> (r, st', EvChunk k body limit (Inr chunks) # evs))"
    by (simp add: sendChunked_def)
qed

section \<open>The dispatcher: media byte ceiling\<close>

lemma resolveSignalMaxBytes_closed:
  "resolveSignalMaxBytes cfg
     = ceilingIfNonZero (sectionMediaMaxMb (cfg_signal cfg)) (sectionMediaMaxMb (cfg_agent cfg))"
  by (simp add: resolveSignalMaxBytes_def ceilingIfNonZero_def nonZero_def truthyNum_def
      timesMB_def MB_def split: option.splits)

lemma resolveIMessageMaxBytes_closed:
  "resolveIMessageMaxBytes cfg
     = ceilingIfNonZero (sectionMediaMaxMb (cfg_imessage cfg)) (sectionMediaMaxMb (cfg_agent cfg))"
  by (simp add: resolveIMessageMaxBytes_def ceilingIfNonZero_def nonZero_def truthyNum_def
      timesMB_def MB_def split: option.splits)

text \<open>
  C9, as stated, at a concrete call: Signal with a provider-specific value of 0 megabytes
  and an agent-wide value of 5. The provider-specific value is present, so the claim gives
  the ceiling \<open>0 * 1048576 = 0\<close>; the send call carries \<open>5 * 1048576\<close>, since the code
  tests the value's truthiness and 0 is falsy.
\<close>

theorem media_byte_ceiling_counterexample:
  "map callMaxBytes (sendCalls (snd (snd (deliverOutboundPayloads mockLib
       (mockParams (mockCfg (Some 0) None (Some 5)) Signal [textPayload ''hi''] None) 0))))
     = [Some 5242880]
   \<and> ceilingIfPresent (Some 0) (Some 5) = Some 0"
  by (simp add: deliver_defs mock_defs callMaxBytes_def ceilingIfPresent_def)

text \<open>
  C9, amended: every send call of a delivery to Signal or iMessage carries as byte ceiling
  the provider-specific megabyte value times 1,048,576 when that value is present and not
  zero, else the agent-wide megabyte value times 1,048,576 when that one is present and not
  zero, else no ceiling; the send calls of every other provider carry no ceiling.
\<close>

theorem media_byte_ceiling:
  assumes "deliverOutboundPayloads lib params w = (res, w', evs)"
    and "c \<in> set (sendCalls evs)"
  shows "callMaxBytes c =
     (if p_provider params = Signal then
        ceilingIfNonZero (sectionMediaMaxMb (cfg_signal (p_cfg params)))
          (sectionMediaMaxMb (cfg_agent (p_cfg params)))
      else if p_provider params = IMessage then
        ceilingIfNonZero (sectionMediaMaxMb (cfg_imessage (p_cfg params)))
          (sectionMediaMaxMb (cfg_agent (p_cfg params)))
      else None)"
proof -
  from assms(1) obtain r st where
    h: "deliverLoop (mkCtx lib params) (normalizeOutboundPayloads (p_payloads params))
          \<lparr> world = w, results = [] \<rparr> = (r, st, evs)"
    by (rule deliverOutboundPayloads_loop)
  from deliverLoop_maxBytes[OF h assms(2)]
  have "callMaxBytes c = ctxMaxBytes (mkCtx lib params)" .
  also have "ctxMaxBytes (mkCtx lib params) =
     (if p_provider params = Signal then resolveSignalMaxBytes (p_cfg params)
      else if p_provider params = IMessage then resolveIMessageMaxBytes (p_cfg params)
      else None)"
    by (simp add: ctxMaxBytes_def mkCtx_def Let_def)
  finally show ?thesis
    by (simp add: resolveSignalMaxBytes_closed resolveIMessageMaxBytes_closed)
qed

theorem media_byte_ceiling_witness:
  "deliverOutboundPayloads mockLib (mockParams (mockCfg (Some 2) None None) Signal
       [\<lparr> rp_text = Some ''hi'', rp_mediaUrl = Some ''https://x.test/a.jpg'', rp_mediaUrls = None \<rparr>]
       None) 0
     = (Inr [\<lparr> dr_provider = Signal, dr_res = 0 \<rparr>], 1,
        [EvPayload \<lparr> np_text = ''hi'', np_mediaUrls = [''https://x.test/a.jpg''] \<rparr>,
         EvSend \<lparr> c_provider = Signal, c_to = ''+1555'', c_text = ''hi'',
                  c_opts = Some \<lparr> o_verbose = None, o_mediaUrl = Some ''https://x.test/a.jpg'',
                                  o_token = None, o_maxBytes = Some (2 * 1024 * 1024) \<rparr> \<rparr> (Inr 0)])
   \<and> callMaxBytes \<lparr> c_provider = Signal, c_to = ''+1555'', c_text = ''hi'',
                  c_opts = Some \<lparr> o_verbose = None, o_mediaUrl = Some ''https://x.test/a.jpg'',
                                  o_token = None, o_maxBytes = Some (2 * 1024 * 1024) \<rparr> \<rparr>
       = ceilingIfNonZero (Some 2) None"
proof -
  let ?call = "\<lparr> c_provider = Signal, c_to = ''+1555'', c_text = ''hi'',
                  c_opts = Some \<lparr> o_verbose = None, o_mediaUrl = Some ''https://x.test/a.jpg'',
                                  o_token = None, o_maxBytes = Some (2 * 1024 * 1024) \<rparr> \<rparr>"
  let ?evs = "[EvPayload \<lparr> np_text = ''hi'', np_mediaUrls = [''https://x.test/a.jpg''] \<rparr>,
         EvSend ?call (Inr 0)] :: (string, nat) Event list"
  have run: "deliverOutboundPayloads mockLib (mockParams (mockCfg (Some 2) None None) Signal
       [\<lparr> rp_text = Some ''hi'', rp_mediaUrl = Some ''https://x.test/a.jpg'', rp_mediaUrls = None \<rparr>]
       None) 0
     = (Inr [\<lparr> dr_provider = Signal, dr_res = 0 \<rparr>], 1, ?evs)"
    by (simp add: deliver_defs mock_defs)
  have mem: "?call \<in> set (sendCalls ?evs)" by simp
  have "callMaxBytes ?call = ceilingIfNonZero (Some 2) None"
    using media_byte_ceiling[OF run mem]
    by (simp add: mockParams_def mockCfg_def sectionMediaMaxMb_def)
  with run show ?thesis by (intro conjI)
qed

section \<open>The gateway call: settlement\<close>

lemmas gateway_defs = callGateway_url_def callGateway_token_def callGateway_password_def
  urlOverride_def remoteUrl_def localUrl_def preferTailnet_def bindMode_def optField_def
  remoteOf_def authOf_def isRemoteMode_def gatewayMode_def jsOr_def nonBlank_def truthyOpt_def
  truthyStr_def trim_def isTrimChar_def urlSource_def remoteFallbackNote_def bindDetail_def
  connectionDetails_def timeoutMsOf_def statedTokenPrecedence_def

lemmas gateway_mock_defs = mockGatewayCfg_def mockEnv_def mockOpts_def

lemma stop_settled: "settled (stop err val s)"
  by (simp add: stop_def)

lemma onEvent_invariant:
  assumes "settled s \<longleftrightarrow> settlements s \<noteq> []" and "length (settlements s) \<le> 1"
  shows "(settled (onEvent details timeoutMs s ev) \<longleftrightarrow> settlements (onEvent details timeoutMs s ev) \<noteq> [])
         \<and> length (settlements (onEvent details timeoutMs s ev)) \<le> 1"
  using assms by (cases ev) (auto simp: stop_def clientStop_def)

lemma onEvent_after_settled:
  assumes "settled s"
  shows "settled (onEvent details timeoutMs s ev)
         \<and> settlements (onEvent details timeoutMs s ev) = settlements s"
  using assms by (cases ev) (auto simp: stop_def clientStop_def)

lemma foldl_onEvent_invariant:
  "(settled s \<longleftrightarrow> settlements s \<noteq> []) \<Longrightarrow> length (settlements s) \<le> 1 \<Longrightarrow>
   (settled (foldl (onEvent details timeoutMs) s evs)
      \<longleftrightarrow> settlements (foldl (onEvent details timeoutMs) s evs) \<noteq> [])
   \<and> length (settlements (foldl (onEvent details timeoutMs) s evs)) \<le> 1"
proof (induction evs arbitrary: s)
  case Nil
  then show ?case by simp
next
  case (Cons ev evs)
  from onEvent_invariant[OF Cons.prems, of details timeoutMs ev]
  have "settled (onEvent details timeoutMs s ev) \<longleftrightarrow> settlements (onEvent details timeoutMs s ev) \<noteq> []"
    and "length (settlements (onEvent details timeoutMs s ev)) \<le> 1" by simp_all
  from Cons.IH[OF this] show ?case by simp
qed

lemma foldl_onEvent_after_settled:
  "settled s \<Longrightarrow>
   settled (foldl (onEvent details timeoutMs) s evs)
   \<and> settlements (foldl (onEvent details timeoutMs) s evs) = settlements s"
proof (induction evs arbitrary: s)
  case Nil
  then show ?case by simp
next
  case (Cons ev evs)
  from onEvent_after_settled[OF Cons.prems, of details timeoutMs ev]
  have a: "settled (onEvent details timeoutMs s ev)"
    and b: "settlements (onEvent details timeoutMs s ev) = settlements s" by simp_all
  from Cons.IH[OF a] b show ?case by simp
qed

text \<open>
  C3: whatever callbacks run and in whatever order, \<^verbatim>\<open>resolve\<close> and \<^verbatim>\<open>reject\<close> are called at
  most once in all; and once the call has an outcome, no later callback (a close event
  after a completed request, a timer, a second completion or failure) settles it again or
  changes that outcome.
\<close>

theorem callGateway_settles_once:
  "length (settlements (runCall opts env evs)) \<le> 1
   \<and> (callGateway opts env evs \<noteq> None \<longrightarrow>
        settlements (runCall opts env (evs @ later)) = settlements (runCall opts env evs)
        \<and> callGateway opts env (evs @ later) = callGateway opts env evs)"
proof -
  let ?f = "onEvent (connectionDetails opts env) (timeoutMsOf opts)"
  have init: "settled (initialCall :: ('a, 'b) CallState) \<longleftrightarrow> settlements (initialCall :: ('a, 'b) CallState) \<noteq> []"
    "length (settlements (initialCall :: ('a, 'b) CallState)) \<le> 1"
    by (simp_all add: initialCall_def)
  from foldl_onEvent_invariant[OF init, of "connectionDetails opts env" "timeoutMsOf opts" evs]
  have inv: "settled (runCall opts env evs) \<longleftrightarrow> settlements (runCall opts env evs) \<noteq> []"
    and once: "length (settlements (runCall opts env evs)) \<le> 1"
    by (simp_all add: runCall_def)
  have later: "settlements (runCall opts env (evs @ later)) = settlements (runCall opts env evs)"
    if "callGateway opts env evs \<noteq> None"
  proof -
    from that have "settlements (runCall opts env evs) \<noteq> []"
      by (auto simp: callGateway_def split: list.splits)
    with inv have "settled (runCall opts env evs)" by simp
    from foldl_onEvent_after_settled[OF this, of "connectionDetails opts env" "timeoutMsOf opts" later]
    show ?thesis by (simp add: runCall_def)
  qed
  then have "callGateway opts env (evs @ later) = callGateway opts env evs"
    if "callGateway opts env evs \<noteq> None"
    using that by (simp add: callGateway_def)
  with once later show ?thesis by blast
qed

theorem callGateway_settles_once_witness:
  "callGateway (mockOpts None None) (mockEnv (mockGatewayCfg None None None None None) None None)
     [HelloOk, RequestCompleted (7::nat)] = (Some (Resolved 7) :: (nat, unit) Settlement option)
   \<and> callGateway (mockOpts None None) (mockEnv (mockGatewayCfg None None None None None) None None)
       ([HelloOk, RequestCompleted (7::nat)] @ [Closed 1006 [], TimerFired, RequestFailed ()])
     = callGateway (mockOpts None None) (mockEnv (mockGatewayCfg None None None None None) None None)
         [HelloOk, RequestCompleted (7::nat)]"
proof -
  let ?o = "mockOpts None None"
  let ?e = "mockEnv (mockGatewayCfg None None None None None) None None"
  have run: "callGateway ?o ?e [HelloOk, RequestCompleted (7::nat)]
      = (Some (Resolved 7) :: (nat, unit) Settlement option)"
    by (simp add: callGateway_def runCall_def initialCall_def stop_def clientStop_def)
  then have ne: "callGateway ?o ?e [HelloOk, RequestCompleted (7::nat)]
      \<noteq> (None :: (nat, unit) Settlement option)" by simp
  from callGateway_settles_once[of ?o ?e "[HelloOk, RequestCompleted (7::nat)]"
      "[Closed 1006 [], TimerFired, RequestFailed ()]"] ne
  have "callGateway ?o ?e ([HelloOk, RequestCompleted (7::nat)] @ [Closed 1006 [], TimerFired, RequestFailed ()])
     = callGateway ?o ?e [HelloOk, RequestCompleted (7::nat)]" by blast
  with run show ?thesis by (intro conjI)
qed

section \<open>The gateway call: target resolution\<close>

lemma nonBlank_Some_nonempty: "nonBlank v = Some u \<Longrightarrow> u \<noteq> []"
  by (auto simp: nonBlank_def split: option.splits if_splits)

lemma nonBlank_Some_iff: "nonBlank v = Some u \<longleftrightarrow> (\<exists>s. v = Some s \<and> u = trim s \<and> trim s \<noteq> [])"
  by (auto simp: nonBlank_def split: option.splits if_splits)

lemma jsOr_nonBlank: "jsOr (nonBlank v) b = (case nonBlank v of Some u \<Rightarrow> Some u | None \<Rightarrow> b)"
  by (auto simp: jsOr_def truthyStr_def split: option.splits dest: nonBlank_Some_nonempty)

lemma localUrl_nonempty: "localUrl env \<noteq> []"
  by (simp add: localUrl_def split: option.splits)

lemma localUrl_tailnet:
  assumes "bindMode (env_config env) = ''tailnet'' \<or> bindMode (env_config env) = ''auto''"
    and "env_tailnetIPv4 env = Some ip" and "ip \<noteq> []"
  shows "localUrl env = ''ws://'' @ ip @ '':'' @ showNat (env_localPort env)"
  using assms by (auto simp: localUrl_def preferTailnet_def truthyOpt_def truthyStr_def)

lemma localUrl_loopback:
  assumes "(bindMode (env_config env) \<noteq> ''tailnet'' \<and> bindMode (env_config env) \<noteq> ''auto'')
           \<or> env_tailnetIPv4 env = None \<or> env_tailnetIPv4 env = Some []"
  shows "localUrl env = ''ws://127.0.0.1:'' @ showNat (env_localPort env)"
  using assms by (auto simp: localUrl_def preferTailnet_def truthyOpt_def truthyStr_def split: option.splits)

lemma remoteUrl_eq:
  "remoteUrl env =
     (if isRemoteMode (env_config env)
      then nonBlank (optField (optField (cfg_gateway (env_config env)) gw_remote) remote_url)
      else None)"
  by (simp add: remoteUrl_def remoteOf_def optField_def nonBlank_def split: option.splits)

text \<open>
  C4: the URL that \<open>callGateway\<close> resolves is never empty, and it is: the explicit URL
  argument, trimmed, when that is not blank; else, in remote mode, the configured remote
  URL, trimmed, when that is not blank; else a local URL on the resolved port, with the
  tailnet address when the bind mode is \<open>tailnet\<close> or \<open>auto\<close> and an address is available,
  with 127.0.0.1 otherwise.
\<close>

theorem callGateway_url_precedence:
  "callGateway_url opts env \<noteq> []
   \<and> (\<forall>u. nonBlank (opt_url opts) = Some u \<longrightarrow> callGateway_url opts env = u)
   \<and> (\<forall>u. nonBlank (opt_url opts) = None \<and> isRemoteMode (env_config env)
          \<and> nonBlank (optField (optField (cfg_gateway (env_config env)) gw_remote) remote_url) = Some u
        \<longrightarrow> callGateway_url opts env = u)
   \<and> (\<forall>ip. nonBlank (opt_url opts) = None
          \<and> (isRemoteMode (env_config env) \<longrightarrow>
               nonBlank (optField (optField (cfg_gateway (env_config env)) gw_remote) remote_url) = None)
          \<and> (bindMode (env_config env) = ''tailnet'' \<or> bindMode (env_config env) = ''auto'')
          \<and> env_tailnetIPv4 env = Some ip \<and> ip \<noteq> []
        \<longrightarrow> callGateway_url opts env = ''ws://'' @ ip @ '':'' @ showNat (env_localPort env))
   \<and> (nonBlank (opt_url opts) = None
          \<and> (isRemoteMode (env_config env) \<longrightarrow>
               nonBlank (optField (optField (cfg_gateway (env_config env)) gw_remote) remote_url) = None)
          \<and> ((bindMode (env_config env) \<noteq> ''tailnet'' \<and> bindMode (env_config env) \<noteq> ''auto'')
               \<or> env_tailnetIPv4 env = None \<or> env_tailnetIPv4 env = Some [])
        \<longrightarrow> callGateway_url opts env = ''ws://127.0.0.1:'' @ showNat (env_localPort env))"
proof -
  have url: "callGateway_url opts env =
      (case nonBlank (opt_url opts) of
         Some u \<Rightarrow> u
       | None \<Rightarrow> (case remoteUrl env of Some u \<Rightarrow> u | None \<Rightarrow> localUrl env))"
    unfolding callGateway_url_def urlOverride_def jsOr_nonBlank
    by (simp split: option.splits)
  have ne: "callGateway_url opts env \<noteq> []"
    unfolding url
    by (auto split: option.splits simp: localUrl_nonempty remoteUrl_def dest: nonBlank_Some_nonempty)
  have c1: "\<forall>u. nonBlank (opt_url opts) = Some u \<longrightarrow> callGateway_url opts env = u"
    unfolding url by simp
  have c2: "\<forall>u. nonBlank (opt_url opts) = None \<and> isRemoteMode (env_config env)
          \<and> nonBlank (optField (optField (cfg_gateway (env_config env)) gw_remote) remote_url) = Some u
        \<longrightarrow> callGateway_url opts env = u"
    unfolding url remoteUrl_eq by simp
  have loc: "callGateway_url opts env = localUrl env"
    if "nonBlank (opt_url opts) = None"
      and "isRemoteMode (env_config env) \<longrightarrow>
               nonBlank (optField (optField (cfg_gateway (env_config env)) gw_remote) remote_url) = None"
    using that unfolding url remoteUrl_eq by simp
  have c3: "\<forall>ip. nonBlank (opt_url opts) = None
          \<and> (isRemoteMode (env_config env) \<longrightarrow>
               nonBlank (optField (optField (cfg_gateway (env_config env)) gw_remote) remote_url) = None)
          \<and> (bindMode (env_config env) = ''tailnet'' \<or> bindMode (env_config env) = ''auto'')
          \<and> env_tailnetIPv4 env = Some ip \<and> ip \<noteq> []
        \<longrightarrow> callGateway_url opts env = ''ws://'' @ ip @ '':'' @ showNat (env_localPort env)"
    using loc localUrl_tailnet by metis
  have c4: "nonBlank (opt_url opts) = None
          \<and> (isRemoteMode (env_config env) \<longrightarrow>
               nonBlank (optField (optField (cfg_gateway (env_config env)) gw_remote) remote_url) = None)
          \<and> ((bindMode (env_config env) \<noteq> ''tailnet'' \<and> bindMode (env_config env) \<noteq> ''auto'')
               \<or> env_tailnetIPv4 env = None \<or> env_tailnetIPv4 env = Some [])
        \<longrightarrow> callGateway_url opts env = ''ws://127.0.0.1:'' @ showNat (env_localPort env)"
    using loc localUrl_loopback by metis
  from ne c1 c2 c3 c4 show ?thesis by (intro conjI)
qed


theorem callGateway_url_precedence_witness:
  "callGateway_url (mockOpts (Some ''  ws://gw.example:9  '') None)
       (mockEnv (mockGatewayCfg (Some ''remote'') (Some ''ws://remote:1'') None None None) None None)
     = ''ws://gw.example:9''
   \<and> callGateway_url (mockOpts (Some ''   '') None)
       (mockEnv (mockGatewayCfg (Some ''remote'') (Some ''ws://remote:1'') None None None) None None)
     = ''ws://remote:1''
   \<and> callGateway_url (mockOpts None None)
       (mockEnv (mockGatewayCfg (Some ''local'') (Some ''ws://remote:1'') None None (Some ''auto''))
          (Some ''100.64.0.1'') None)
     = ''ws://100.64.0.1:18789''
   \<and> callGateway_url (mockOpts None None)
       (mockEnv (mockGatewayCfg None None None None (Some ''tailnet'')) None None)
     = ''ws://127.0.0.1:18789''"
proof (intro conjI)
  let ?o1 = "mockOpts (Some ''  ws://gw.example:9  '') None"
  let ?e1 = "mockEnv (mockGatewayCfg (Some ''remote'') (Some ''ws://remote:1'') None None None) None None"
  have "nonBlank (opt_url ?o1) = Some ''ws://gw.example:9''"
    by (simp add: gateway_defs gateway_mock_defs)
  with callGateway_url_precedence[of ?o1 ?e1]
  show "callGateway_url ?o1 ?e1 = ''ws://gw.example:9''" by blast
next
  let ?o2 = "mockOpts (Some ''   '') None"
  let ?e2 = "mockEnv (mockGatewayCfg (Some ''remote'') (Some ''ws://remote:1'') None None None) None None"
  have "nonBlank (opt_url ?o2) = None \<and> isRemoteMode (env_config ?e2)
      \<and> nonBlank (optField (optField (cfg_gateway (env_config ?e2)) gw_remote) remote_url)
          = Some ''ws://remote:1''"
    by (simp add: gateway_defs gateway_mock_defs)
  with callGateway_url_precedence[of ?o2 ?e2]
  show "callGateway_url ?o2 ?e2 = ''ws://remote:1''" by blast
next
  let ?o3 = "mockOpts None None"
  let ?e3 = "mockEnv (mockGatewayCfg (Some ''local'') (Some ''ws://remote:1'') None None (Some ''auto''))
          (Some ''100.64.0.1'') None"
  have "nonBlank (opt_url ?o3) = None
      \<and> (isRemoteMode (env_config ?e3) \<longrightarrow>
           nonBlank (optField (optField (cfg_gateway (env_config ?e3)) gw_remote) remote_url) = None)
      \<and> (bindMode (env_config ?e3) = ''tailnet'' \<or> bindMode (env_config ?e3) = ''auto'')
      \<and> env_tailnetIPv4 ?e3 = Some ''100.64.0.1'' \<and> ''100.64.0.1'' \<noteq> []"
    by (simp add: gateway_defs gateway_mock_defs)
  with callGateway_url_precedence[of ?o3 ?e3]
  have "callGateway_url ?o3 ?e3 = ''ws://'' @ ''100.64.0.1'' @ '':'' @ showNat (env_localPort ?e3)"
    by blast
  then show "callGateway_url ?o3 ?e3 = ''ws://100.64.0.1:18789''"
    by (simp add: mockEnv_def showNat.simps)
next
  let ?o4 = "mockOpts None None"
  let ?e4 = "mockEnv (mockGatewayCfg None None None None (Some ''tailnet'')) None None"
  have "nonBlank (opt_url ?o4) = None
      \<and> (isRemoteMode (env_config ?e4) \<longrightarrow>
           nonBlank (optField (optField (cfg_gateway (env_config ?e4)) gw_remote) remote_url) = None)
      \<and> ((bindMode (env_config ?e4) \<noteq> ''tailnet'' \<and> bindMode (env_config ?e4) \<noteq> ''auto'')
           \<or> env_tailnetIPv4 ?e4 = None \<or> env_tailnetIPv4 ?e4 = Some [])"
    by (simp add: gateway_defs gateway_mock_defs)
  with callGateway_url_precedence[of ?o4 ?e4]
  have "callGateway_url ?o4 ?e4 = ''ws://127.0.0.1:'' @ showNat (env_localPort ?e4)"
    by blast
  then show "callGateway_url ?o4 ?e4 = ''ws://127.0.0.1:18789''"
    by (simp add: mockEnv_def showNat.simps)
qed

lemma jsOr_None: "jsOr None b = b"
  by (simp add: jsOr_def)

lemma trimmed_env: "jsOr (map_option trim v) b = (case nonBlank v of Some u \<Rightarrow> Some u | None \<Rightarrow> b)"
  by (cases v) (auto simp: jsOr_def nonBlank_def truthyStr_def)

lemma remoteToken_eq:
  "isRemoteMode config \<Longrightarrow>
     optField (remoteOf config) remote_token
       = optField (optField (cfg_gateway config) gw_remote) remote_token"
  by (simp add: remoteOf_def optField_def split: option.splits)

text \<open>
  C5, as stated, at a concrete call: remote mode, no remote token, no explicit token, a
  token in the environment and a locally configured one. The stated chain falls through
  to the environment's token; the code resolves no token at all, since in remote mode it
  consults the remote configuration only.
\<close>

theorem callGateway_token_counterexample:
  "callGateway_token (mockOpts None None)
       (mockEnv (mockGatewayCfg (Some ''remote'') (Some ''ws://remote:1'') None (Some ''local-token'') None)
          None (Some ''env-token''))
     = None
   \<and> statedTokenPrecedence (mockOpts None None)
       (mockEnv (mockGatewayCfg (Some ''remote'') (Some ''ws://remote:1'') None (Some ''local-token'') None)
          None (Some ''env-token''))
     = Some ''env-token''"
  by (simp add: gateway_defs gateway_mock_defs)

text \<open>
  C5, amended: the token is the explicit token argument, trimmed, when that is not
  blank; else, in remote mode, the remote configuration's token (trimmed, none when it
  is absent or blank), the environment and the local configuration not being consulted;
  else, outside remote mode, the environment's token, trimmed, when that is not blank;
  else the locally configured token (trimmed, none when absent or blank).
\<close>

theorem callGateway_token_precedence:
  "(\<forall>t. nonBlank (opt_token opts) = Some t \<longrightarrow> callGateway_token opts env = Some t)
   \<and> (nonBlank (opt_token opts) = None \<and> isRemoteMode (env_config env) \<longrightarrow>
        callGateway_token opts env
          = nonBlank (optField (optField (cfg_gateway (env_config env)) gw_remote) remote_token))
   \<and> (\<forall>t. nonBlank (opt_token opts) = None \<and> \<not> isRemoteMode (env_config env)
          \<and> nonBlank (env_token env) = Some t
        \<longrightarrow> callGateway_token opts env = Some t)
   \<and> (nonBlank (opt_token opts) = None \<and> \<not> isRemoteMode (env_config env)
          \<and> nonBlank (env_token env) = None
        \<longrightarrow> callGateway_token opts env
              = nonBlank (optField (optField (cfg_gateway (env_config env)) gw_auth) auth_token))"
proof -
  have tok: "callGateway_token opts env =
      (case nonBlank (opt_token opts) of
         Some t \<Rightarrow> Some t
       | None \<Rightarrow>
           if isRemoteMode (env_config env)
           then nonBlank (optField (remoteOf (env_config env)) remote_token)
           else (case nonBlank (env_token env) of
                   Some t \<Rightarrow> Some t
                 | None \<Rightarrow> nonBlank (optField (authOf (env_config env)) auth_token)))"
    unfolding callGateway_token_def jsOr_nonBlank trimmed_env by simp
  have auth: "optField (authOf (env_config env)) auth_token
      = optField (optField (cfg_gateway (env_config env)) gw_auth) auth_token"
    by (simp add: authOf_def optField_def)
  have c1: "\<forall>t. nonBlank (opt_token opts) = Some t \<longrightarrow> callGateway_token opts env = Some t"
    unfolding tok by simp
  have c2: "nonBlank (opt_token opts) = None \<and> isRemoteMode (env_config env) \<longrightarrow>
        callGateway_token opts env
          = nonBlank (optField (optField (cfg_gateway (env_config env)) gw_remote) remote_token)"
    unfolding tok by (simp add: remoteToken_eq)
  have c3: "\<forall>t. nonBlank (opt_token opts) = None \<and> \<not> isRemoteMode (env_config env)
          \<and> nonBlank (env_token env) = Some t
        \<longrightarrow> callGateway_token opts env = Some t"
    unfolding tok by simp
  have c4: "nonBlank (opt_token opts) = None \<and> \<not> isRemoteMode (env_config env)
          \<and> nonBlank (env_token env) = None
        \<longrightarrow> callGateway_token opts env
              = nonBlank (optField (optField (cfg_gateway (env_config env)) gw_auth) auth_token)"
    unfolding tok auth by simp
  from c1 c2 c3 c4 show ?thesis by (intro conjI)
qed

theorem callGateway_token_precedence_witness:
  "callGateway_token (mockOpts None (Some '' cli-token ''))
       (mockEnv (mockGatewayCfg (Some ''remote'') None (Some ''remote-token'') (Some ''local-token'') None)
          None (Some ''env-token''))
     = Some ''cli-token''
   \<and> callGateway_token (mockOpts None None)
       (mockEnv (mockGatewayCfg (Some ''remote'') None (Some ''remote-token'') (Some ''local-token'') None)
          None (Some ''env-token''))
     = Some ''remote-token''
   \<and> callGateway_token (mockOpts None None)
       (mockEnv (mockGatewayCfg None None (Some ''remote-token'') (Some ''local-token'') None)
          None (Some ''env-token''))
     = Some ''env-token''
   \<and> callGateway_token (mockOpts None None)
       (mockEnv (mockGatewayCfg None None (Some ''remote-token'') (Some ''local-token'') None)
          None None)
     = Some ''local-token''"
proof (intro conjI)
  let ?o1 = "mockOpts None (Some '' cli-token '')"
  let ?e1 = "mockEnv (mockGatewayCfg (Some ''remote'') None (Some ''remote-token'') (Some ''local-token'') None)
          None (Some ''env-token'')"
  have "nonBlank (opt_token ?o1) = Some ''cli-token''"
    by (simp add: gateway_defs gateway_mock_defs)
  with callGateway_token_precedence[of ?o1 ?e1]
  show "callGateway_token ?o1 ?e1 = Some ''cli-token''" by blast
next
  let ?o2 = "mockOpts None None"
  let ?e2 = "mockEnv (mockGatewayCfg (Some ''remote'') None (Some ''remote-token'') (Some ''local-token'') None)
          None (Some ''env-token'')"
  have h: "nonBlank (opt_token ?o2) = None \<and> isRemoteMode (env_config ?e2)"
    by (simp add: gateway_defs gateway_mock_defs)
  have v: "nonBlank (optField (optField (cfg_gateway (env_config ?e2)) gw_remote) remote_token)
      = Some ''remote-token''"
    by (simp add: gateway_defs gateway_mock_defs)
  from callGateway_token_precedence[of ?o2 ?e2] h
  have "callGateway_token ?o2 ?e2
      = nonBlank (optField (optField (cfg_gateway (env_config ?e2)) gw_remote) remote_token)"
    by blast
  with v show "callGateway_token ?o2 ?e2 = Some ''remote-token''" by simp
next
  let ?o3 = "mockOpts None None"
  let ?e3 = "mockEnv (mockGatewayCfg None None (Some ''remote-token'') (Some ''local-token'') None)
          None (Some ''env-token'')"
  have "nonBlank (opt_token ?o3) = None \<and> \<not> isRemoteMode (env_config ?e3)
      \<and> nonBlank (env_token ?e3) = Some ''env-token''"
    by (simp add: gateway_defs gateway_mock_defs)
  with callGateway_token_precedence[of ?o3 ?e3]
  show "callGateway_token ?o3 ?e3 = Some ''env-token''" by blast
next
  let ?o4 = "mockOpts None None"
  let ?e4 = "mockEnv (mockGatewayCfg None None (Some ''remote-token'') (Some ''local-token'') None)
          None None"
  have h: "nonBlank (opt_token ?o4) = None \<and> \<not> isRemoteMode (env_config ?e4)
      \<and> nonBlank (env_token ?e4) = None"
    by (simp add: gateway_defs gateway_mock_defs)
  have v: "nonBlank (optField (optField (cfg_gateway (env_config ?e4)) gw_auth) auth_token)
      = Some ''local-token''"
    by (simp add: gateway_defs gateway_mock_defs)
  from callGateway_token_precedence[of ?o4 ?e4] h
  have "callGateway_token ?o4 ?e4
      = nonBlank (optField (optField (cfg_gateway (env_config ?e4)) gw_auth) auth_token)"
    by blast
  with v show "callGateway_token ?o4 ?e4 = Some ''local-token''" by simp
qed

end
